theory Spec2Isabelle
  imports Complex_Main "HOL-Library.Sublist" "HOL-Library.Word"
begin

section \<open>QA data model (types/qa.ts)\<close>

text \<open>
  Strings are lists of code units; every literal of the modelled source lies below
  \<open>0x100\<close>, so a \<^typ>\<open>char\<close> stands for one code unit. Record fields carry a
  prefix because a field name is a global constant in HOL.
\<close>

datatype QaCheckStatus = Pass | Fail | Warning | Skipped

datatype QaCheckSeverity = Hard | Soft

datatype FigureStyle = scientific_diagram | scientific_map | scientific_chart

record QaCheck =
  qc_id :: string
  qc_name :: string
  qc_severity :: QaCheckSeverity
  qc_status :: QaCheckStatus
  qc_detail :: "string option"

record QaReport =
  passed :: bool
  score :: rat
  hardFailCount :: nat
  checks :: "QaCheck list"
  attempts :: nat
  figureStyle :: FigureStyle
  evaluationTimeMs :: nat

text \<open>
  A check definition. The source's fourth field, the instruction text, is read only when
  the evaluation prompt is built; the prompt goes to the evaluator backend, whose reply is
  an input of the model, so the field is left out.
\<close>

record QaCheckDefinition =
  def_id :: string
  def_name :: string
  def_severity :: QaCheckSeverity

definition mk_def :: "string \<Rightarrow> string \<Rightarrow> QaCheckSeverity \<Rightarrow> QaCheckDefinition" where
  "mk_def i n s = \<lparr>def_id = i, def_name = n, def_severity = s\<rparr>"

definition COMMON_CHECKS :: "QaCheckDefinition list" where
  "COMMON_CHECKS =
    [mk_def ''spelling'' ''Spelling Accuracy'' Hard,
     mk_def ''french_accents'' ''French Accent Marks'' Hard,
     mk_def ''text_readable'' ''Text Readability'' Hard,
     mk_def ''clean_background'' ''Clean Background'' Hard,
     mk_def ''contrast'' ''Sufficient Contrast'' Hard,
     mk_def ''scientific_terminology'' ''Scientific Terminology'' Soft]"

definition MAP_CHECKS :: "QaCheckDefinition list" where
  "MAP_CHECKS =
    [mk_def ''scale_bar'' ''Scale Bar Present'' Hard,
     mk_def ''north_arrow'' ''North Arrow Present'' Hard,
     mk_def ''legend_if_needed'' ''Legend If Needed'' Soft]"

definition CHART_CHECKS :: "QaCheckDefinition list" where
  "CHART_CHECKS =
    [mk_def ''axis_labels'' ''Axis Labels'' Hard,
     mk_def ''units_present'' ''Units Present'' Hard,
     mk_def ''legend_if_multiple'' ''Legend for Multiple Series'' Hard,
     mk_def ''gridlines'' ''Grid Lines'' Soft]"

definition DIAGRAM_CHECKS :: "QaCheckDefinition list" where
  "DIAGRAM_CHECKS =
    [mk_def ''components_labeled'' ''Components Labeled'' Hard,
     mk_def ''visual_style_consistency'' ''Visual Style Consistency'' Hard,
     mk_def ''subpanel_labels'' ''Sub-panel Labels'' Hard,
     mk_def ''color_palette_coherent'' ''Coherent Color Palette'' Hard,
     mk_def ''flow_arrows'' ''Flow Arrows'' Soft,
     mk_def ''consistent_lineweight'' ''Consistent Line Weight'' Soft]"

text \<open>
  The table of style-specific checks has an entry for each of the three styles, so the
  source's fallback to no style-specific checks is never taken.
\<close>

fun styleChecks :: "FigureStyle \<Rightarrow> QaCheckDefinition list" where
  "styleChecks scientific_map = MAP_CHECKS"
| "styleChecks scientific_chart = CHART_CHECKS"
| "styleChecks scientific_diagram = DIAGRAM_CHECKS"

definition getChecksForStyle :: "FigureStyle \<Rightarrow> QaCheckDefinition list" where
  "getChecksForStyle st = COMMON_CHECKS @ styleChecks st"

section \<open>Errors and parsed JSON\<close>

datatype error =
    GeminiAPIError string
  | NetworkError string
  | FileOperationError string
  | SecurityError string
  | PlainError string

text \<open>
  The value \<open>JSON.parse\<close> returns. An object is the list of its members, each key once; a
  member is looked up by key, and a value that is not an object has none of the members
  the validator reads (\<open>checks\<close>, \<open>id\<close>, \<open>status\<close>, \<open>detail\<close>).
\<close>

datatype json =
    JNull
  | JBool bool
  | JNumber rat
  | JString string
  | JArray "json list"
  | JObject "(string \<times> json) list"

fun get_prop :: "json \<Rightarrow> string \<Rightarrow> json option" where
  "get_prop (JObject kvs) k = map_of kvs k"
| "get_prop _ k = None"

text \<open>JavaScript truthiness of a parsed value: \<open>!parsed\<close> holds for these.\<close>

fun falsy :: "json \<Rightarrow> bool" where
  "falsy JNull = True"
| "falsy (JBool b) = (\<not> b)"
| "falsy (JNumber x) = (x = 0)"
| "falsy (JString s) = (s = [])"
| "falsy _ = False"

section \<open>Cleaning the evaluator reply (scientificQaValidator.ts, parseQaResponse)\<close>

definition fence :: string where
  "fence = [CHR 0x60, CHR 0x60, CHR 0x60]"

text \<open>
  \<open>replace(/```json?\n?/g, '')\<close>: at each position, left to right, a fence followed by
  \<open>jso\<close>, an optional \<open>n\<close> and an optional line feed is removed, and the scan continues
  behind it.
\<close>

definition drop_opt :: "char \<Rightarrow> string \<Rightarrow> string" where
  "drop_opt c s = (case s of [] \<Rightarrow> [] | x # xs \<Rightarrow> if x = c then xs else s)"

function stripJsonFences :: "string \<Rightarrow> string" where
  "stripJsonFences [] = []"
| "stripJsonFences (c # cs) =
     (if prefix (fence @ ''jso'') (c # cs)
      then stripJsonFences (drop_opt (CHR 0x0A) (drop_opt CHR ''n'' (drop 6 (c # cs))))
      else c # stripJsonFences cs)"
  by pat_completeness auto

termination stripJsonFences
proof (relation "measure length")
  show "wf (measure length)" by simp
next
  fix c :: char and cs :: string
  assume "prefix (fence @ ''jso'') (c # cs)"
  have shorter: "length (drop_opt x s) \<le> length s" for x s
    by (simp add: drop_opt_def split: list.splits)
  have "length (drop_opt (CHR 0x0A) (drop_opt CHR ''n'' (drop 6 (c # cs))))
          \<le> length (drop 6 (c # cs))"
    by (meson shorter order_trans)
  also have "\<dots> < length (c # cs)" by simp
  finally show "(drop_opt (CHR 0x0A) (drop_opt CHR ''n'' (drop 6 (c # cs))), c # cs)
                  \<in> measure length"
    by simp
next
  fix c :: char and cs :: string
  show "(cs, c # cs) \<in> measure length" by simp
qed

text \<open>\<open>replace(/```/g, '')\<close>: every remaining fence is removed.\<close>

function stripFences :: "string \<Rightarrow> string" where
  "stripFences [] = []"
| "stripFences (c # cs) =
     (if prefix fence (c # cs) then stripFences (drop 3 (c # cs))
      else c # stripFences cs)"
  by pat_completeness auto

termination stripFences
  by (relation "measure length") auto

text \<open>\<open>trim()\<close>: the white space and line terminators below \<open>0x100\<close>.\<close>

definition isWhiteSpace :: "char \<Rightarrow> bool" where
  "isWhiteSpace c \<longleftrightarrow>
     c \<in> {CHR 0x09, CHR 0x0A, CHR 0x0B, CHR 0x0C, CHR 0x0D, CHR 0x20, CHR 0xA0}"

definition trim :: "string \<Rightarrow> string" where
  "trim s = rev (dropWhile isWhiteSpace (rev (dropWhile isWhiteSpace s)))"

definition cleanResponse :: "string \<Rightarrow> string" where
  "cleanResponse responseText = trim (stripFences (stripJsonFences responseText))"

section \<open>The QA evaluator (scientificQaValidator.ts)\<close>

text \<open>\<open>Math.round\<close> on exact rationals: the nearest integer, a half rounded up.\<close>

definition Math_round :: "rat \<Rightarrow> rat" where
  "Math_round x = of_int \<lfloor>x + 1 / 2\<rfloor>"

definition isHardFailure :: "QaCheck \<Rightarrow> bool" where
  "isHardFailure r \<longleftrightarrow> qc_severity r = Hard \<and> qc_status r = Fail"

definition buildReportFromResults :: "QaCheck list \<Rightarrow> FigureStyle \<Rightarrow> QaReport" where
  "buildReportFromResults cs st =
     (let evaluatedChecks = filter (\<lambda>r. qc_status r \<noteq> Skipped) cs;
          passedChecks = filter (\<lambda>r. qc_status r = Pass) evaluatedChecks;
          hardFailures = filter isHardFailure cs;
          sc = (if length evaluatedChecks > 0
                then Math_round (of_nat (length passedChecks) / of_nat (length evaluatedChecks) * 100) / 100
                else 0)
      in \<lparr>passed = (length hardFailures = 0), score = sc,
          hardFailCount = length hardFailures, checks = cs, attempts = 1,
          figureStyle = st, evaluationTimeMs = 0\<rparr>)"

definition skippedCheck :: "QaCheckDefinition \<Rightarrow> QaCheck" where
  "skippedCheck d =
     \<lparr>qc_id = def_id d, qc_name = def_name d, qc_severity = def_severity d,
      qc_status = Skipped, qc_detail = Some ''QA evaluation could not be completed''\<rparr>"

definition buildSkippedReport :: "FigureStyle \<Rightarrow> QaCheckDefinition list \<Rightarrow> QaReport" where
  "buildSkippedReport st checkDefinitions =
     \<lparr>passed = True, score = 0, hardFailCount = 0,
      checks = map skippedCheck checkDefinitions, attempts = 1,
      figureStyle = st, evaluationTimeMs = 0\<rparr>"

text \<open>
  One definition against the reply's \<open>checks\<close> array: \<open>find\<close> takes the first entry whose
  \<open>id\<close> is the definition's; its status counts when it is one of the three accepted
  strings, its detail when it is a string.
\<close>

definition hasId :: "string \<Rightarrow> json \<Rightarrow> bool" where
  "hasId i c \<longleftrightarrow> get_prop c ''id'' = Some (JString i)"

definition statusOf :: "json option \<Rightarrow> QaCheckStatus" where
  "statusOf found =
     (case found of
        None \<Rightarrow> Skipped
      | Some c \<Rightarrow>
          (case get_prop c ''status'' of
             Some (JString s) \<Rightarrow>
               if s = ''pass'' then Pass
               else if s = ''fail'' then Fail
               else if s = ''warning'' then Warning
               else Skipped
           | _ \<Rightarrow> Skipped))"

definition detailOf :: "json option \<Rightarrow> string option" where
  "detailOf found =
     (case found of
        None \<Rightarrow> None
      | Some c \<Rightarrow> (case get_prop c ''detail'' of Some (JString s) \<Rightarrow> Some s | _ \<Rightarrow> None))"

definition checkResult :: "json list \<Rightarrow> QaCheckDefinition \<Rightarrow> QaCheck" where
  "checkResult replyChecks d =
     (let found = find (hasId (def_id d)) replyChecks
      in \<lparr>qc_id = def_id d, qc_name = def_name d, qc_severity = def_severity d,
          qc_status = statusOf found, qc_detail = detailOf found\<rparr>)"

text \<open>
  \<open>json_parse\<close> stands for \<open>JSON.parse\<close>: \<open>None\<close> where it throws. The warnings logged
  on the two fallback paths are not part of the result.
\<close>

definition parseQaResponse ::
  "(string \<Rightarrow> json option) \<Rightarrow> string \<Rightarrow> FigureStyle \<Rightarrow> QaCheckDefinition list \<Rightarrow> QaReport" where
  "parseQaResponse json_parse responseText st checkDefinitions =
     (case json_parse (cleanResponse responseText) of
        None \<Rightarrow> buildSkippedReport st checkDefinitions
      | Some parsed \<Rightarrow>
          if falsy parsed then buildSkippedReport st checkDefinitions
          else (case get_prop parsed ''checks'' of
                  Some (JArray replyChecks) \<Rightarrow>
                    buildReportFromResults (map (checkResult replyChecks) checkDefinitions) st
                | _ \<Rightarrow> buildSkippedReport st checkDefinitions))"

text \<open>
  \<open>validate\<close>: \<open>result\<close> is what the text client returned for the evaluation prompt and the
  image, \<open>Inl\<close> its classified failure.
\<close>

definition validate ::
  "(string \<Rightarrow> json option) \<Rightarrow> error + string \<Rightarrow> FigureStyle \<Rightarrow> error + QaReport" where
  "validate json_parse result st =
     (let checkDefinitions = getChecksForStyle st
      in case result of
           Inl e \<Rightarrow> Inr (buildSkippedReport st checkDefinitions)
         | Inr data \<Rightarrow> Inr (parseQaResponse json_parse data st checkDefinitions))"

text \<open>
  What the reply offers for the checks: the \<open>checks\<close> array of the parsed reply, and
  nothing when the backend call failed, the cleaned reply did not parse, or the parsed
  value has no \<open>checks\<close> array.
\<close>

definition evaluatorReplyChecks ::
  "(string \<Rightarrow> json option) \<Rightarrow> error + string \<Rightarrow> json list option" where
  "evaluatorReplyChecks json_parse result =
     (case result of
        Inl e \<Rightarrow> None
      | Inr data \<Rightarrow>
          (case json_parse (cleanResponse data) of
             None \<Rightarrow> None
           | Some parsed \<Rightarrow>
               (case get_prop parsed ''checks'' of
                  Some (JArray replyChecks) \<Rightarrow> Some replyChecks
                | _ \<Rightarrow> None)))"

definition replyEntries :: "(string \<Rightarrow> json option) \<Rightarrow> error + string \<Rightarrow> json list" where
  "replyEntries json_parse result =
     (case evaluatorReplyChecks json_parse result of None \<Rightarrow> [] | Some cs \<Rightarrow> cs)"

definition acceptedStatus :: "json \<Rightarrow> bool" where
  "acceptedStatus c \<longleftrightarrow>
     get_prop c ''status'' \<in>
       {Some (JString ''pass''), Some (JString ''fail''), Some (JString ''warning'')}"

definition isEvaluated :: "QaCheck \<Rightarrow> bool" where
  "isEvaluated c \<longleftrightarrow> qc_status c \<in> {Pass, Fail, Warning}"

text \<open>
  Two behaviours of \<open>JSON.parse\<close> on the reply at hand, returning a given value and
  throwing, and a reply entry with an id and a status.
\<close>

definition parserReturning :: "json \<Rightarrow> string \<Rightarrow> json option" where
  "parserReturning v s = Some v"

definition unparseable :: "string \<Rightarrow> json option" where
  "unparseable s = None"

definition replyEntry :: "string \<Rightarrow> string \<Rightarrow> json" where
  "replyEntry i s = JObject [(''id'', JString i), (''status'', JString s)]"

definition exampleReply :: json where
  "exampleReply = JObject [(''checks'', JArray
     [replyEntry ''spelling'' ''pass'', replyEntry ''scale_bar'' ''fail'',
      replyEntry ''north_arrow'' ''warning''])]"

text \<open>The two counts the score is a ratio of.\<close>

definition isPassed :: "QaCheck \<Rightarrow> bool" where
  "isPassed c \<longleftrightarrow> qc_status c = Pass"

definition passCount :: "QaCheck list \<Rightarrow> nat" where
  "passCount cs = length (filter isPassed cs)"

definition evaluatedCount :: "QaCheck list \<Rightarrow> nat" where
  "evaluatedCount cs = length (filter isEvaluated cs)"

section \<open>The retry patch builder (scientificQaValidator.ts)\<close>

text \<open>
  The remediation table is an object literal: its own members are the eleven
  instructions, and a key it does not own is looked up in \<open>Object.prototype\<close>, whose
  members are native functions and, under \<open>__proto__\<close>, the prototype object itself.
\<close>

datatype js_member = JsString string | JsNativeFunction string | JsPrototypeObject

definition REMEDIATION_INSTRUCTIONS :: "(string \<times> string) list" where
  "REMEDIATION_INSTRUCTIONS =
    [(''spelling'',
      ''CRITICAL FIX: There are spelling errors in the figure. Double-check and correct ALL text, labels, and annotations.''),
     (''french_accents'',
      ''CRITICAL FIX: French accent marks are missing or incorrect. Ensure all French text has correct accents: ''
        @ [CHR 0xE9] @ '', '' @ [CHR 0xE8] @ '', '' @ [CHR 0xEA] @ '', '' @ [CHR 0xEB] @ '', ''
        @ [CHR 0xE0] @ '', '' @ [CHR 0xE2] @ '', '' @ [CHR 0xF9] @ '', '' @ [CHR 0xFB] @ '', ''
        @ [CHR 0xF4] @ '', '' @ [CHR 0xEE] @ '', '' @ [CHR 0xEF] @ '', '' @ [CHR 0xE7] @ ''.''),
     (''text_readable'',
      ''CRITICAL FIX: Some text is not readable. All text must be clearly visible, at a sufficient font size, with no overlapping.''),
     (''clean_background'',
      ''CRITICAL FIX: The background must be clean white or neutral. Remove any gradients, artistic effects, or decorative elements.''),
     (''contrast'',
      ''CRITICAL FIX: Insufficient contrast. Use dark text/lines on a light background for clear readability.''),
     (''scale_bar'',
      ''MANDATORY ELEMENT MISSING: You MUST include a clearly visible scale bar with metric units (m or km) in the bottom-left or bottom-right corner.''),
     (''north_arrow'',
      ''MANDATORY ELEMENT MISSING: You MUST include a clearly visible north arrow (standard cartographic symbol) in the top-right corner.''),
     (''axis_labels'',
      ''MANDATORY ELEMENT MISSING: BOTH x-axis and y-axis MUST have clearly visible labels.''),
     (''units_present'',
      ''MANDATORY ELEMENT MISSING: All axis labels MUST include appropriate SI units in parentheses (e.g., Temperature (''
        @ [CHR 0xB0] @ ''C), Distance (km)).''),
     (''legend_if_multiple'',
      ''MANDATORY ELEMENT MISSING: You MUST include a legend that explains all data series, colors, and symbols.''),
     (''components_labeled'',
      ''MANDATORY ELEMENT MISSING: ALL major components and elements in the diagram MUST be clearly labeled with text annotations.'')]"

definition OBJECT_PROTOTYPE :: "(string \<times> js_member) list" where
  "OBJECT_PROTOTYPE =
    [(''constructor'', JsNativeFunction ''Object''),
     (''__defineGetter__'', JsNativeFunction ''__defineGetter__''),
     (''__defineSetter__'', JsNativeFunction ''__defineSetter__''),
     (''hasOwnProperty'', JsNativeFunction ''hasOwnProperty''),
     (''__lookupGetter__'', JsNativeFunction ''__lookupGetter__''),
     (''__lookupSetter__'', JsNativeFunction ''__lookupSetter__''),
     (''isPrototypeOf'', JsNativeFunction ''isPrototypeOf''),
     (''propertyIsEnumerable'', JsNativeFunction ''propertyIsEnumerable''),
     (''toString'', JsNativeFunction ''toString''),
     (''valueOf'', JsNativeFunction ''valueOf''),
     (''__proto__'', JsPrototypeObject),
     (''toLocaleString'', JsNativeFunction ''toLocaleString'')]"

text \<open>\<open>table[key]\<close>: the own member, else the inherited one, else undefined.\<close>

definition memberOf :: "(string \<times> string) list \<Rightarrow> string \<Rightarrow> js_member option" where
  "memberOf table k =
     (case map_of table k of
        Some s \<Rightarrow> Some (JsString s)
      | None \<Rightarrow> map_of OBJECT_PROTOTYPE k)"

text \<open>
  Truthiness of a looked-up member, and its text inside a template literal (a native
  function prints as the runtime prints it).
\<close>

fun memberTruthy :: "js_member option \<Rightarrow> bool" where
  "memberTruthy None = False"
| "memberTruthy (Some (JsString s)) = (s \<noteq> [])"
| "memberTruthy (Some m) = True"

fun memberText :: "js_member \<Rightarrow> string" where
  "memberText (JsString s) = s"
| "memberText (JsNativeFunction n) = ''function '' @ n @ ''() { [native code] }''"
| "memberText JsPrototypeObject = ''[object Object]''"

definition join :: "string \<Rightarrow> string list \<Rightarrow> string" where
  "join sep xs = (case xs of [] \<Rightarrow> [] | y # ys \<Rightarrow> y @ concat (map (\<lambda>z. sep @ z) ys))"

text \<open>A string is truthy when it is defined and not empty.\<close>

definition truthy :: "string option \<Rightarrow> bool" where
  "truthy s = (case s of None \<Rightarrow> False | Some t \<Rightarrow> t \<noteq> [])"

definition detailSuffix :: "QaCheck \<Rightarrow> string" where
  "detailSuffix f =
     (if truthy (qc_detail f) then '' (Issue found: '' @ the (qc_detail f) @ '')'' else [])"

definition genericLine :: "QaCheck \<Rightarrow> string" where
  "genericLine f =
     ''- FIX REQUIRED for '' @ [CHR 0x22] @ qc_name f @ [CHR 0x22] @ '': ''
       @ (if truthy (qc_detail f) then the (qc_detail f) else ''This element is mandatory.'')"

definition remediationLine :: "QaCheck \<Rightarrow> string" where
  "remediationLine f =
     (let instruction = memberOf REMEDIATION_INSTRUCTIONS (qc_id f);
          detail = detailSuffix f
      in if memberTruthy instruction then ''- '' @ memberText (the instruction) @ detail
         else genericLine f)"

definition patchHeader :: string where
  "patchHeader =
     [CHR 0x0A, CHR 0x0A] @ ''[CORRECTIONS OBLIGATOIRES - QA REMEDIATION]'' @ [CHR 0x0A]
       @ ''The previous generation FAILED quality checks. You MUST address ALL of the following issues:''
       @ [CHR 0x0A]"

definition patchFooter :: string where
  "patchFooter =
     [CHR 0x0A, CHR 0x0A]
       @ ''These fixes are MANDATORY for publication-quality scientific figures. Do not omit any of them.''"

definition buildRetryPatch :: "QaCheck list \<Rightarrow> string" where
  "buildRetryPatch failedChecks =
     (let hardFailures = filter isHardFailure failedChecks
      in if length hardFailures = 0 then []
         else patchHeader @ join [CHR 0x0A] (map remediationLine hardFailures) @ patchFooter)"

section \<open>The generation and QA orchestrator (server, handleGenerateImage)\<close>

type_synonym bytes = "8 word list"

record GeneratedImageResult =
  imageData :: bytes
  metadata :: string

text \<open>
  The request and the configuration, with the fields the orchestrator decides on. The
  other generation options are handed to the image backend unchanged on every attempt.
\<close>

record GenerateImageParams =
  p_prompt :: string
  p_fileName :: "string option"
  p_figureStyle :: "FigureStyle option"
  p_validateQa :: "bool option"

record Config =
  imageOutputDir :: string
  enableScientificQa :: bool
  scientificQaMaxRetries :: nat

text \<open>
  A call of the validator returns a result or throws. A validator and the image backend
  are functions of the attempt number too: two calls with equal arguments may differ.
\<close>

datatype qa_outcome = QaReturned "error + QaReport" | QaThrew

type_synonym validator = "nat \<Rightarrow> bytes \<Rightarrow> qa_outcome"

record collaborators =
  generateImage :: "nat \<Rightarrow> string \<Rightarrow> error + GeneratedImageResult"
  elapsedMs :: "nat \<Rightarrow> nat"
  generateFileName :: "bytes \<Rightarrow> string"
  pathJoin :: "string \<Rightarrow> string \<Rightarrow> string"
  sanitizeFilePath :: "string \<Rightarrow> error + string"
  saveImage :: "bytes \<Rightarrow> string \<Rightarrow> error + string"

text \<open>One attempt as it was made: the prompt sent, what came back, and the QA call if any.\<close>

record attempt_log =
  al_prompt :: string
  al_generation :: "error + GeneratedImageResult"
  al_qa :: "qa_outcome option"

definition logAttempt ::
  "string \<Rightarrow> error + GeneratedImageResult \<Rightarrow> qa_outcome option \<Rightarrow> attempt_log" where
  "logAttempt p g q = \<lparr>al_prompt = p, al_generation = g, al_qa = q\<rparr>"

text \<open>
  The validator is created on demand when the call opts in, none exists yet and a figure
  style is given; \<open>created\<close> is the result of creating the text client for it.
\<close>

definition ensureQaValidator ::
  "GenerateImageParams \<Rightarrow> error + validator \<Rightarrow> validator option \<Rightarrow> validator option" where
  "ensureQaValidator params created qaValidator =
     (if p_validateQa params = Some True \<and> qaValidator = None \<and> p_figureStyle params \<noteq> None
      then (case created of Inr v \<Rightarrow> Some v | Inl e \<Rightarrow> qaValidator)
      else qaValidator)"

definition qaEnabled :: "GenerateImageParams \<Rightarrow> Config \<Rightarrow> validator option \<Rightarrow> bool" where
  "qaEnabled params config qaValidator \<longleftrightarrow>
     p_figureStyle params \<noteq> None
     \<and> (enableScientificQa config \<or> p_validateQa params = Some True)
     \<and> qaValidator \<noteq> None"

definition maxAttemptsOf :: "bool \<Rightarrow> Config \<Rightarrow> nat" where
  "maxAttemptsOf qaOn config = (if qaOn then scientificQaMaxRetries config + 1 else 1)"

text \<open>
  The retry loop. It returns the attempts made and either the error thrown or the loop
  variables \<open>lastGenerationResult\<close> and \<open>qaReport\<close> at its exit.
\<close>

function retryLoop ::
  "collaborators \<Rightarrow> validator option \<Rightarrow> bool \<Rightarrow> bool \<Rightarrow> string \<Rightarrow> nat \<Rightarrow> nat \<Rightarrow> string
     \<Rightarrow> QaReport option \<Rightarrow> GeneratedImageResult option
     \<Rightarrow> attempt_log list \<times> (error + GeneratedImageResult option \<times> QaReport option)" where
  "retryLoop env qaValidator qaOn styleGiven structuredPrompt maxAttempts attempt currentPrompt
       qaReport lastGenerationResult =
     (if attempt \<le> maxAttempts then
        (case generateImage env attempt currentPrompt of
           Inl e \<Rightarrow> ([logAttempt currentPrompt (Inl e) None], Inl e)
         | Inr g \<Rightarrow>
             (case (if qaOn \<and> styleGiven then qaValidator else None) of
                None \<Rightarrow> ([logAttempt currentPrompt (Inr g) None], Inr (Some g, qaReport))
              | Some v \<Rightarrow>
                  (case v attempt (imageData g) of
                     QaThrew \<Rightarrow>
                       ([logAttempt currentPrompt (Inr g) (Some QaThrew)], Inr (Some g, qaReport))
                   | QaReturned (Inl e) \<Rightarrow>
                       ([logAttempt currentPrompt (Inr g) (Some (QaReturned (Inl e)))],
                        Inr (Some g, qaReport))
                   | QaReturned (Inr data) \<Rightarrow>
                       (let rep = data\<lparr>attempts := attempt, evaluationTimeMs := elapsedMs env attempt\<rparr>;
                            entry = logAttempt currentPrompt (Inr g) (Some (QaReturned (Inr data)))
                        in if passed rep \<or> attempt = maxAttempts
                           then ([entry], Inr (Some g, Some rep))
                           else if buildRetryPatch (checks rep) \<noteq> []
                           then apfst (Cons entry)
                                  (retryLoop env qaValidator qaOn styleGiven structuredPrompt
                                     maxAttempts (attempt + 1)
                                     (structuredPrompt @ buildRetryPatch (checks rep))
                                     (Some rep) (Some g))
                           else ([entry], Inr (Some g, Some rep))))))
      else ([], Inr (lastGenerationResult, qaReport)))"
  by pat_completeness auto

termination retryLoop
  by (relation "measure (\<lambda>(env, v, qaOn, styleGiven, sp, maxAttempts, attempt, rest).
                   Suc maxAttempts - attempt)") auto

section \<open>The file name of the saved artifact\<close>

definition getExtensionFromImageData :: "bytes \<Rightarrow> string" where
  "getExtensionFromImageData d =
     (if length d < 12 then ''.png''
      else if d ! 0 = 0x89 \<and> d ! 1 = 0x50 \<and> d ! 2 = 0x4e \<and> d ! 3 = 0x47 then ''.png''
      else if d ! 0 = 0xff \<and> d ! 1 = 0xd8 \<and> d ! 2 = 0xff then ''.jpg''
      else if d ! 0 = 0x47 \<and> d ! 1 = 0x49 \<and> d ! 2 = 0x46 \<and> d ! 3 = 0x38 then ''.gif''
      else if d ! 0 = 0x52 \<and> d ! 1 = 0x49 \<and> d ! 2 = 0x46 \<and> d ! 3 = 0x46
              \<and> d ! 8 = 0x57 \<and> d ! 9 = 0x45 \<and> d ! 10 = 0x42 \<and> d ! 11 = 0x50 then ''.webp''
      else ''.png'')"

text \<open>
  \<open>replace(/\.[^/.]+$/, '')\<close>: the leftmost dot that is followed, up to the end of the
  name, by one or more characters other than a slash and a dot is cut off with them.
\<close>

definition extensionChar :: "char \<Rightarrow> bool" where
  "extensionChar x \<longleftrightarrow> x \<noteq> CHR ''/'' \<and> x \<noteq> CHR ''.''"

fun removeExtension :: "string \<Rightarrow> string" where
  "removeExtension [] = []"
| "removeExtension (c # cs) =
     (if c = CHR ''.'' \<and> cs \<noteq> [] \<and> list_all extensionChar cs then []
      else c # removeExtension cs)"

definition outputFileName :: "collaborators \<Rightarrow> string option \<Rightarrow> bytes \<Rightarrow> string" where
  "outputFileName env fileName d =
     (if truthy fileName then removeExtension (the fileName) @ getExtensionFromImageData d
      else generateFileName env d)"

section \<open>The handler\<close>

record success_response =
  sr_result :: GeneratedImageResult
  sr_path :: string
  sr_qa :: "QaReport option"

text \<open>
  What one call leaves behind: the validator field of the server, the attempts made, the
  call of \<open>saveImage\<close> if one was made, and the response (\<open>Inl\<close> the error thrown inside
  the handler, which the wrapper turns into the error response).
\<close>

record handler_result =
  hr_qaValidator :: "validator option"
  hr_attempts :: "attempt_log list"
  hr_saveCall :: "(bytes \<times> string) option"
  hr_response :: "error + success_response"

definition persist ::
  "collaborators \<Rightarrow> Config \<Rightarrow> GenerateImageParams \<Rightarrow> GeneratedImageResult \<Rightarrow> QaReport option
     \<Rightarrow> (bytes \<times> string) option \<times> (error + success_response)" where
  "persist env config params g qaReport =
     (let fileName = outputFileName env (p_fileName params) (imageData g);
          outputPath = pathJoin env (imageOutputDir config) fileName
      in case sanitizeFilePath env outputPath of
           Inl e \<Rightarrow> (None, Inl e)
         | Inr sanitizedPath \<Rightarrow>
             (case saveImage env (imageData g) sanitizedPath of
                Inl e \<Rightarrow> (Some (imageData g, sanitizedPath), Inl e)
              | Inr saved \<Rightarrow>
                  (Some (imageData g, sanitizedPath),
                   Inr \<lparr>sr_result = g, sr_path = saved, sr_qa = qaReport\<rparr>)))"

text \<open>
  The handler from the point where the clients exist and the structured prompt has been
  chosen (the enriched prompt, or the request's prompt when enrichment is off or failed).
\<close>

definition handleGenerateImage ::
  "collaborators \<Rightarrow> error + validator \<Rightarrow> validator option \<Rightarrow> Config \<Rightarrow> GenerateImageParams
     \<Rightarrow> string \<Rightarrow> handler_result" where
  "handleGenerateImage env created qaValidator0 config params structuredPrompt =
     (let qaValidator = ensureQaValidator params created qaValidator0;
          qaOn = qaEnabled params config qaValidator;
          maxAttempts = maxAttemptsOf qaOn config;
          looped = retryLoop env qaValidator qaOn (p_figureStyle params \<noteq> None) structuredPrompt
                     maxAttempts 1 structuredPrompt None None
      in case snd looped of
           Inl e \<Rightarrow>
             \<lparr>hr_qaValidator = qaValidator, hr_attempts = fst looped,
              hr_saveCall = None, hr_response = Inl e\<rparr>
         | Inr (None, qaReport) \<Rightarrow>
             \<lparr>hr_qaValidator = qaValidator, hr_attempts = fst looped,
              hr_saveCall = None, hr_response = Inl (PlainError ''Image generation failed'')\<rparr>
         | Inr (Some g, qaReport) \<Rightarrow>
             \<lparr>hr_qaValidator = qaValidator, hr_attempts = fst looped,
              hr_saveCall = fst (persist env config params g qaReport),
              hr_response = snd (persist env config params g qaReport)\<rparr>)"

section \<open>Example inputs\<close>

text \<open>
  A check result from its fields; the check of the repository's unknown-id test with an
  id that the table does not own but every object inherits; and the line a table
  instruction makes for a check.
\<close>

definition mkCheck :: "string \<Rightarrow> string \<Rightarrow> QaCheckSeverity \<Rightarrow> QaCheckStatus \<Rightarrow> string option \<Rightarrow> QaCheck" where
  "mkCheck i n sev s d = \<lparr>qc_id = i, qc_name = n, qc_severity = sev, qc_status = s, qc_detail = d\<rparr>"

definition constructorFailure :: QaCheck where
  "constructorFailure =
     mkCheck ''constructor'' ''Unknown Check'' Hard Fail (Some ''Something failed'')"

definition tableLine :: "QaCheck \<Rightarrow> string \<Rightarrow> string" where
  "tableLine f ins = ''- '' @ ins @ detailSuffix f"

section \<open>Notions used to state the orchestrator's properties\<close>

text \<open>
  The validator the loop calls, if any; the ways a single attempt ends the loop; whether QA
  is active for a request once the validator has been looked for; and the loop as the
  handler starts it.
\<close>

definition activeValidator :: "validator option \<Rightarrow> bool \<Rightarrow> bool \<Rightarrow> validator option" where
  "activeValidator v qaOn sg = (if qaOn \<and> sg then v else None)"

definition terminalAttempt ::
  "validator option \<Rightarrow> collaborators \<Rightarrow> nat \<Rightarrow> nat \<Rightarrow> QaReport option \<Rightarrow> attempt_log
     \<Rightarrow> error + GeneratedImageResult option \<times> QaReport option \<Rightarrow> bool" where
  "terminalAttempt active env maxA attempt rep a R \<longleftrightarrow>
     (\<exists>e. al_generation a = Inl e \<and> al_qa a = None \<and> R = Inl e)
     \<or> (\<exists>g. al_generation a = Inr g \<and> al_qa a = None \<and> active = None \<and> R = Inr (Some g, rep))
     \<or> (\<exists>g q. al_generation a = Inr g \<and> al_qa a = Some q \<and> active \<noteq> None
            \<and> (\<forall>data. q \<noteq> QaReturned (Inr data)) \<and> R = Inr (Some g, rep))
     \<or> (\<exists>g data. al_generation a = Inr g \<and> al_qa a = Some (QaReturned (Inr data))
            \<and> active \<noteq> None
            \<and> (passed data \<or> attempt = maxA \<or> buildRetryPatch (checks data) = [])
            \<and> R = Inr (Some g, Some (data\<lparr>attempts := attempt,
                                         evaluationTimeMs := elapsedMs env attempt\<rparr>)))"

definition qaActive ::
  "GenerateImageParams \<Rightarrow> error + validator \<Rightarrow> validator option \<Rightarrow> Config \<Rightarrow> bool" where
  "qaActive params created qaValidator0 config =
     qaEnabled params config (ensureQaValidator params created qaValidator0)"

definition handlerLoop ::
  "collaborators \<Rightarrow> error + validator \<Rightarrow> validator option \<Rightarrow> Config \<Rightarrow> GenerateImageParams
     \<Rightarrow> string \<Rightarrow> attempt_log list \<times> (error + GeneratedImageResult option \<times> QaReport option)" where
  "handlerLoop env created v0 config params sp =
     retryLoop env (ensureQaValidator params created v0) (qaActive params created v0 config)
       (p_figureStyle params \<noteq> None) sp
       (maxAttemptsOf (qaActive params created v0 config) config) 1 sp None None"

text \<open>The signatures the extension is read from.\<close>

definition pngMagic :: bytes where "pngMagic = [0x89, 0x50, 0x4E, 0x47]"
definition jpegMagic :: bytes where "jpegMagic = [0xFF, 0xD8, 0xFF]"
definition gifMagic :: bytes where "gifMagic = [0x47, 0x49, 0x46, 0x38]"
definition riffMagic :: bytes where "riffMagic = [0x52, 0x49, 0x46, 0x46]"
definition webpMagic :: bytes where "webpMagic = [0x57, 0x45, 0x42, 0x50]"

definition isWebp :: "bytes \<Rightarrow> bool" where
  "isWebp d \<longleftrightarrow> prefix riffMagic d \<and> take 4 (drop 8 d) = webpMagic"

section \<open>Example runs\<close>

text \<open>
  A backend that always returns a JPEG, one that is blocked on the second call, and a
  validator (the evaluator above on a map figure) whose reply fails the scale bar on the
  first attempt, the north arrow on the second and nothing from the third on.
\<close>

definition jpegBytes :: bytes where
  "jpegBytes = [0xFF, 0xD8, 0xFF, 0xE0, 0x00, 0x10, 0x4A, 0x46, 0x49, 0x46, 0x00, 0x01]"

definition exampleImage :: GeneratedImageResult where
  "exampleImage = \<lparr>imageData = jpegBytes, metadata = ''gemini''\<rparr>"

definition exampleEnv :: collaborators where
  "exampleEnv =
     \<lparr>generateImage = (\<lambda>attempt prompt. Inr exampleImage),
      elapsedMs = (\<lambda>attempt. 0),
      generateFileName = (\<lambda>d. ''image-0-0.png''),
      pathJoin = (\<lambda>dir f. dir @ ''/'' @ f),
      sanitizeFilePath = (\<lambda>p. Inr p),
      saveImage = (\<lambda>d p. Inr p)\<rparr>"


text \<open>A backend that echoes the prompt it was sent in the metadata of its result.\<close>

definition echoEnv :: collaborators where
  "echoEnv = exampleEnv\<lparr>generateImage :=
     (\<lambda>attempt prompt. Inr \<lparr>imageData = jpegBytes, metadata = prompt\<rparr>)\<rparr>"

definition mapReply :: "string list \<Rightarrow> json" where
  "mapReply failing =
     JObject [(''checks'', JArray (map (\<lambda>d. replyEntry (def_id d)
        (if def_id d \<in> set failing then ''fail'' else ''pass'')) (getChecksForStyle scientific_map)))]"

definition exampleValidator :: validator where
  "exampleValidator attempt img =
     QaReturned (validate
       (parserReturning (mapReply (if attempt = 1 then [''scale_bar'']
                                   else if attempt = 2 then [''north_arrow''] else [])))
       (Inr ''{}'') scientific_map)"

definition exampleParams :: GenerateImageParams where
  "exampleParams =
     \<lparr>p_prompt = ''Map of glaciers'', p_fileName = Some ''glaciers.png'',
      p_figureStyle = Some scientific_map, p_validateQa = Some True\<rparr>"

definition plainParams :: GenerateImageParams where
  "plainParams = exampleParams\<lparr>p_figureStyle := None\<rparr>"

definition exampleConfig :: Config where
  "exampleConfig =
     \<lparr>imageOutputDir = ''./output'', enableScientificQa = False, scientificQaMaxRetries = 2\<rparr>"

definition unavailable :: "error + validator" where
  "unavailable = Inl (GeminiAPIError ''Failed to initialize Gemini Text client'')"

definition passingReport :: QaReport where
  "passingReport = projr (validate (parserReturning (mapReply [])) (Inr ''{}'') scientific_map)"

section \<open>The evaluator's report\<close>

lemma parseQaResponse_eq:
  "parseQaResponse jp reply st ds =
     (case evaluatorReplyChecks jp (Inr reply) of
        None \<Rightarrow> buildSkippedReport st ds
      | Some cs \<Rightarrow> buildReportFromResults (map (checkResult cs) ds) st)"
proof (cases "jp (cleanResponse reply)")
  case None
  then show ?thesis by (simp add: parseQaResponse_def evaluatorReplyChecks_def)
next
  case (Some parsed)
  then show ?thesis
    by (cases parsed)
       (simp_all add: parseQaResponse_def evaluatorReplyChecks_def split: option.split json.split)
qed

lemma validate_eq:
  "validate jp res st =
     Inr (case evaluatorReplyChecks jp res of
            None \<Rightarrow> buildSkippedReport st (getChecksForStyle st)
          | Some cs \<Rightarrow> buildReportFromResults (map (checkResult cs) (getChecksForStyle st)) st)"
proof (cases res)
  case (Inl e)
  then show ?thesis by (simp add: validate_def evaluatorReplyChecks_def)
next
  case (Inr reply)
  then show ?thesis by (simp add: validate_def parseQaResponse_eq Let_def)
qed

lemma skipped_no_hard_failure: "filter isHardFailure (map skippedCheck ds) = []"
  by (induction ds) (simp_all add: isHardFailure_def skippedCheck_def)

lemma all_skipped_checks: "list_all (\<lambda>c. qc_status c = Skipped) (map skippedCheck ds)"
  by (induction ds) (simp_all add: skippedCheck_def)

lemma buildReportFromResults_hard:
  "hardFailCount (buildReportFromResults cs st) = length (filter isHardFailure cs)"
  "passed (buildReportFromResults cs st) = (hardFailCount (buildReportFromResults cs st) = 0)"
  "checks (buildReportFromResults cs st) = cs"
  by (simp_all add: buildReportFromResults_def Let_def)

lemma buildSkippedReport_hard:
  "hardFailCount (buildSkippedReport st ds)
     = length (filter isHardFailure (checks (buildSkippedReport st ds)))"
  "passed (buildSkippedReport st ds) = (hardFailCount (buildSkippedReport st ds) = 0)"
  by (simp_all add: buildSkippedReport_def skipped_no_hard_failure)

text \<open>
  C1. Every report the evaluator builds, from results, as the all-skipped fallback, or
  through \<open>validate\<close> on any backend outcome, has \<open>hardFailCount\<close> equal to the number of
  its checks that are hard and failed, and \<open>passed\<close> true exactly when that count is 0;
  neither the score nor a soft check enters.
\<close>

theorem hardFailCount_passed_consistent:
  "(hardFailCount (buildReportFromResults cs st) = length (filter isHardFailure cs)
      \<and> passed (buildReportFromResults cs st) = (hardFailCount (buildReportFromResults cs st) = 0))
   \<and> (hardFailCount (buildSkippedReport st ds)
         = length (filter isHardFailure (checks (buildSkippedReport st ds)))
      \<and> passed (buildSkippedReport st ds) = (hardFailCount (buildSkippedReport st ds) = 0))
   \<and> (\<exists>r. validate jp res st = Inr r
        \<and> hardFailCount r = length (filter isHardFailure (checks r))
        \<and> passed r = (hardFailCount r = 0))"
proof (intro conjI)
  show "\<exists>r. validate jp res st = Inr r
        \<and> hardFailCount r = length (filter isHardFailure (checks r))
        \<and> passed r = (hardFailCount r = 0)"
  proof (cases "evaluatorReplyChecks jp res")
    case None
    then show ?thesis
      by (simp add: validate_eq buildSkippedReport_hard)
  next
    case (Some replyChecks)
    then show ?thesis
      by (simp add: validate_eq buildReportFromResults_hard)
  qed
qed (simp_all add: buildReportFromResults_hard buildSkippedReport_hard)

text \<open>
  C2. When the backend call fails, or the cleaned reply does not parse, or the parsed
  value has no \<open>checks\<close> array, \<open>validate\<close> returns a success whose report lists every
  check of the effective set as skipped, with \<open>passed\<close> true and \<open>score\<close> 0.
\<close>

theorem validate_fallback:
  assumes "(\<exists>e. res = Inl e)
           \<or> (\<exists>reply. res = Inr reply \<and> jp (cleanResponse reply) = None)
           \<or> (\<exists>reply parsed. res = Inr reply \<and> jp (cleanResponse reply) = Some parsed
                 \<and> (\<forall>replyChecks. get_prop parsed ''checks'' \<noteq> Some (JArray replyChecks)))"
  shows "\<exists>r. validate jp res st = Inr r
           \<and> checks r = map skippedCheck (getChecksForStyle st)
           \<and> list_all (\<lambda>c. qc_status c = Skipped) (checks r)
           \<and> passed r \<and> score r = 0"
proof -
  have "evaluatorReplyChecks jp res = None"
    using assms
    by (auto simp: evaluatorReplyChecks_def split: option.splits json.splits)
  then show ?thesis
    by (simp add: validate_eq buildSkippedReport_def all_skipped_checks)
qed

theorem validate_fallback_witness:
  "(\<exists>reply. (Inr ''This is not valid JSON at all'' :: error + string) = Inr reply
       \<and> unparseable (cleanResponse reply) = None)
   \<and> (\<exists>r. validate unparseable (Inr ''This is not valid JSON at all'') scientific_map = Inr r
         \<and> checks r = map skippedCheck (getChecksForStyle scientific_map)
         \<and> list_all (\<lambda>c. qc_status c = Skipped) (checks r)
         \<and> passed r \<and> score r = 0)"
proof -
  have h: "\<exists>reply. (Inr ''This is not valid JSON at all'' :: error + string) = Inr reply
       \<and> unparseable (cleanResponse reply) = None"
    by (simp add: unparseable_def)
  then show ?thesis
    using validate_fallback [of "Inr ''This is not valid JSON at all''" unparseable scientific_map]
    by blast
qed

section \<open>The score\<close>

lemma evaluated_iff: "isEvaluated c \<longleftrightarrow> qc_status c \<noteq> Skipped"
  by (cases "qc_status c") (simp_all add: isEvaluated_def)

lemma evaluated_filter: "filter (\<lambda>r. qc_status r \<noteq> Skipped) cs = filter isEvaluated cs"
  by (induction cs) (simp_all add: evaluated_iff)

lemma passed_filter:
  "filter (\<lambda>r. isEvaluated r \<and> qc_status r = Pass) cs = filter isPassed cs"
  by (induction cs) (auto simp: isPassed_def isEvaluated_def)

lemma skipped_counts: "evaluatedCount (map skippedCheck ds) = 0"
  by (induction ds) (simp_all add: evaluatedCount_def isEvaluated_def skippedCheck_def)

lemma Math_round_near: "\<bar>Math_round x / 100 - x / 100\<bar> \<le> 1 / 200"
proof -
  have "of_int \<lfloor>x + 1 / 2\<rfloor> \<le> x + 1 / 2" by (rule of_int_floor_le)
  moreover have "x + 1 / 2 < of_int \<lfloor>x + 1 / 2\<rfloor> + 1" by linarith
  ultimately have "\<bar>Math_round x - x\<bar> \<le> 1 / 2"
    unfolding Math_round_def by linarith
  then show ?thesis by (simp add: abs_le_iff field_simps)
qed

lemma buildReportFromResults_score:
  "score (buildReportFromResults cs st) =
     (if evaluatedCount cs = 0 then 0
      else Math_round (of_nat (passCount cs) / of_nat (evaluatedCount cs) * 100) / 100)"
  by (simp add: buildReportFromResults_def Let_def evaluated_filter passed_filter
      passCount_def evaluatedCount_def)

text \<open>
  C4, as the code has it. The score of every report \<open>validate\<close> returns is the ratio of
  passed checks to evaluated checks (status pass, fail or warning; skipped checks count
  on neither side) rounded to two decimals, a half rounded up, so it is within 1/200 of
  the ratio; it is 0 when no check was evaluated. The source rounds in double precision,
  the model in exact rationals; the two agree for the at most 12 checks of a style.
\<close>

theorem validate_score_rounded:
  "\<exists>r. validate jp res st = Inr r
     \<and> (evaluatedCount (checks r) = 0 \<longrightarrow> score r = 0)
     \<and> (0 < evaluatedCount (checks r) \<longrightarrow>
          score r = Math_round (of_nat (passCount (checks r)) / of_nat (evaluatedCount (checks r)) * 100) / 100
          \<and> \<bar>score r - of_nat (passCount (checks r)) / of_nat (evaluatedCount (checks r))\<bar> \<le> 1 / 200)"
proof (cases "evaluatorReplyChecks jp res")
  case None
  then show ?thesis
    by (simp add: validate_eq buildSkippedReport_def skipped_counts)
next
  case (Some cs)
  let ?r = "buildReportFromResults (map (checkResult cs) (getChecksForStyle st)) st"
  have v: "validate jp res st = Inr ?r" using Some by (simp add: validate_eq)
  have c: "checks ?r = map (checkResult cs) (getChecksForStyle st)"
    by (simp add: buildReportFromResults_def Let_def)
  have s: "score ?r = (if evaluatedCount (checks ?r) = 0 then 0
      else Math_round (of_nat (passCount (checks ?r)) / of_nat (evaluatedCount (checks ?r)) * 100) / 100)"
    unfolding c by (rule buildReportFromResults_score)
  have n: "\<bar>Math_round (of_nat (passCount (checks ?r)) / of_nat (evaluatedCount (checks ?r)) * 100) / 100
            - of_nat (passCount (checks ?r)) / of_nat (evaluatedCount (checks ?r))\<bar> \<le> 1 / 200"
    using Math_round_near [of "of_nat (passCount (checks ?r)) / of_nat (evaluatedCount (checks ?r)) * 100"]
    by simp
  show ?thesis using v s n by auto
qed

theorem validate_score_rounded_witness:
  "0 < evaluatedCount (checks (projr (validate (parserReturning exampleReply) (Inr ''{}'') scientific_map)))
   \<and> score (projr (validate (parserReturning exampleReply) (Inr ''{}'') scientific_map)) =
       Math_round (of_nat (passCount (checks (projr (validate (parserReturning exampleReply) (Inr ''{}'') scientific_map))))
          / of_nat (evaluatedCount (checks (projr (validate (parserReturning exampleReply) (Inr ''{}'') scientific_map)))) * 100) / 100"
proof -
  let ?v = "validate (parserReturning exampleReply) (Inr ''{}'') scientific_map"
  obtain r where v: "?v = Inr r"
    and imp: "0 < evaluatedCount (checks r) \<longrightarrow>
          score r = Math_round (of_nat (passCount (checks r)) / of_nat (evaluatedCount (checks r)) * 100) / 100"
    using validate_score_rounded [of "parserReturning exampleReply" "Inr ''{}''" scientific_map] by auto
  have "evaluatedCount (checks (projr ?v)) = 3" by code_simp
  then have pos: "0 < evaluatedCount (checks r)" using v by simp
  show ?thesis using v pos imp by simp
qed

text \<open>
  The claim as it is written, that the score equals the ratio, fails: a map figure whose
  reply rates one check pass, one fail and one warning gets 0.33, not 1/3.
\<close>

theorem score_ratio_counterexample:
  "score (projr (validate (parserReturning exampleReply) (Inr ''{}'') scientific_map)) = 33 / 100
   \<and> passCount (checks (projr (validate (parserReturning exampleReply) (Inr ''{}'') scientific_map))) = 1
   \<and> evaluatedCount (checks (projr (validate (parserReturning exampleReply) (Inr ''{}'') scientific_map))) = 3
   \<and> score (projr (validate (parserReturning exampleReply) (Inr ''{}'') scientific_map))
       \<noteq> of_nat (passCount (checks (projr (validate (parserReturning exampleReply) (Inr ''{}'') scientific_map))))
         / of_nat (evaluatedCount (checks (projr (validate (parserReturning exampleReply) (Inr ''{}'') scientific_map))))"
  by code_simp

section \<open>One check per definition\<close>

lemma statusOf_skipped_iff:
  "statusOf found = Skipped \<longleftrightarrow> found = None \<or> (\<exists>e. found = Some e \<and> \<not> acceptedStatus e)"
  by (auto simp: statusOf_def acceptedStatus_def split: option.splits json.splits)

lemma checkResult_fields:
  "qc_id (checkResult cs d) = def_id d"
  "qc_name (checkResult cs d) = def_name d"
  "qc_severity (checkResult cs d) = def_severity d"
  "qc_status (checkResult cs d) = statusOf (find (hasId (def_id d)) cs)"
  by (simp_all add: checkResult_def Let_def)

lemma skippedCheck_fields:
  "qc_id (skippedCheck d) = def_id d"
  "qc_name (skippedCheck d) = def_name d"
  "qc_severity (skippedCheck d) = def_severity d"
  "qc_status (skippedCheck d) = Skipped"
  by (simp_all add: skippedCheck_def)

lemma distinct_check_ids: "distinct (map def_id (getChecksForStyle st))"
  by (cases st)
     (simp_all add: getChecksForStyle_def COMMON_CHECKS_def MAP_CHECKS_def CHART_CHECKS_def
        DIAGRAM_CHECKS_def mk_def_def)

lemma hard_failures_evaluated:
  "filter (\<lambda>x. isEvaluated x \<and> isHardFailure x) cs = filter isHardFailure cs"
  by (induction cs) (auto simp: isHardFailure_def isEvaluated_def)

lemma validate_report_shape:
  "\<exists>r. validate jp res st = Inr r
     \<and> map qc_id (checks r) = map def_id (getChecksForStyle st)
     \<and> map qc_name (checks r) = map def_name (getChecksForStyle st)
     \<and> map qc_severity (checks r) = map def_severity (getChecksForStyle st)
     \<and> (\<forall>c \<in> set (checks r). qc_status c = statusOf (find (hasId (qc_id c)) (replyEntries jp res)))
     \<and> hardFailCount r = length (filter isHardFailure (checks r))"
proof (cases "evaluatorReplyChecks jp res")
  case None
  then show ?thesis
    by (auto simp: validate_eq buildSkippedReport_def replyEntries_def skippedCheck_fields
        statusOf_def skipped_no_hard_failure)
next
  case (Some cs)
  then show ?thesis
    by (auto simp: validate_eq buildReportFromResults_hard replyEntries_def checkResult_fields)
qed

text \<open>
  C5. For every figure style and every backend outcome, the report has one check per
  definition of the effective set, in definition order, with the definition's id, name
  and severity, and the ids are distinct. A check is skipped when the reply has no entry
  with its id, and when the entry found for its id has a status other than pass, fail or
  warning (an unusable reply has no entries at all); an accepted status makes it an
  evaluated check. Skipped checks add nothing to \<open>hardFailCount\<close>: the count over the
  evaluated checks alone is the same.
\<close>

theorem validate_checks_follow_definitions:
  "\<exists>r. validate jp res st = Inr r
     \<and> length (checks r) = length COMMON_CHECKS + length (styleChecks st)
     \<and> map qc_id (checks r) = map def_id (getChecksForStyle st)
     \<and> map qc_name (checks r) = map def_name (getChecksForStyle st)
     \<and> map qc_severity (checks r) = map def_severity (getChecksForStyle st)
     \<and> distinct (map qc_id (checks r))
     \<and> (\<forall>c \<in> set (checks r).
          (find (hasId (qc_id c)) (replyEntries jp res) = None \<longrightarrow> qc_status c = Skipped)
          \<and> (\<forall>e. find (hasId (qc_id c)) (replyEntries jp res) = Some e \<and> \<not> acceptedStatus e
                 \<longrightarrow> qc_status c = Skipped)
          \<and> (\<forall>e. find (hasId (qc_id c)) (replyEntries jp res) = Some e \<and> acceptedStatus e
                 \<longrightarrow> isEvaluated c))
     \<and> hardFailCount r = length (filter isHardFailure (filter isEvaluated (checks r)))"
proof -
  obtain r where v: "validate jp res st = Inr r"
    and ids: "map qc_id (checks r) = map def_id (getChecksForStyle st)"
    and names: "map qc_name (checks r) = map def_name (getChecksForStyle st)"
    and sevs: "map qc_severity (checks r) = map def_severity (getChecksForStyle st)"
    and st: "\<forall>c \<in> set (checks r). qc_status c = statusOf (find (hasId (qc_id c)) (replyEntries jp res))"
    and hf: "hardFailCount r = length (filter isHardFailure (checks r))"
    using validate_report_shape [of jp res st] by blast
  have len: "length (checks r) = length COMMON_CHECKS + length (styleChecks st)"
    using arg_cong [OF ids, of length] by (simp add: getChecksForStyle_def)
  have dist: "distinct (map qc_id (checks r))"
    using distinct_check_ids [of st] ids by simp
  have each: "\<forall>c \<in> set (checks r).
          (find (hasId (qc_id c)) (replyEntries jp res) = None \<longrightarrow> qc_status c = Skipped)
          \<and> (\<forall>e. find (hasId (qc_id c)) (replyEntries jp res) = Some e \<and> \<not> acceptedStatus e
                 \<longrightarrow> qc_status c = Skipped)
          \<and> (\<forall>e. find (hasId (qc_id c)) (replyEntries jp res) = Some e \<and> acceptedStatus e
                 \<longrightarrow> isEvaluated c)"
  proof
    fix c assume "c \<in> set (checks r)"
    then have s: "qc_status c = statusOf (find (hasId (qc_id c)) (replyEntries jp res))"
      using st by blast
    show "(find (hasId (qc_id c)) (replyEntries jp res) = None \<longrightarrow> qc_status c = Skipped)
          \<and> (\<forall>e. find (hasId (qc_id c)) (replyEntries jp res) = Some e \<and> \<not> acceptedStatus e
                 \<longrightarrow> qc_status c = Skipped)
          \<and> (\<forall>e. find (hasId (qc_id c)) (replyEntries jp res) = Some e \<and> acceptedStatus e
                 \<longrightarrow> isEvaluated c)"
      using statusOf_skipped_iff [of "find (hasId (qc_id c)) (replyEntries jp res)"] s
      by (auto simp: evaluated_iff)
  qed
  show ?thesis
    using v len ids names sevs dist each hf by (simp add: hard_failures_evaluated)
qed

theorem validate_checks_follow_definitions_witness:
  "\<exists>r. validate (parserReturning exampleReply) (Inr ''{}'') scientific_map = Inr r
     \<and> (\<exists>c \<in> set (checks r). qc_id c = ''french_accents''
           \<and> find (hasId (qc_id c)) (replyEntries (parserReturning exampleReply) (Inr ''{}'')) = None
           \<and> qc_status c = Skipped)"
proof -
  let ?jp = "parserReturning exampleReply" and ?res = "Inr ''{}'' :: error + string"
  obtain r where v: "validate ?jp ?res scientific_map = Inr r"
    and ids: "map qc_id (checks r) = map def_id (getChecksForStyle scientific_map)"
    and each: "\<forall>c \<in> set (checks r).
          (find (hasId (qc_id c)) (replyEntries ?jp ?res) = None \<longrightarrow> qc_status c = Skipped)"
    using validate_checks_follow_definitions [of ?jp ?res scientific_map] by blast
  have "''french_accents'' \<in> set (map def_id (getChecksForStyle scientific_map))"
    by (simp add: getChecksForStyle_def COMMON_CHECKS_def mk_def_def)
  then have "''french_accents'' \<in> set (map qc_id (checks r))" using ids by simp
  then obtain c where c: "c \<in> set (checks r)" "qc_id c = ''french_accents''" by auto
  have missing: "find (hasId ''french_accents'') (replyEntries ?jp ?res) = None"
    by (simp add: replyEntries_def evaluatorReplyChecks_def parserReturning_def exampleReply_def
        replyEntry_def hasId_def)
  then have "qc_status c = Skipped" using each c by simp
  then show ?thesis using v c missing by auto
qed

section \<open>The retry patch\<close>

lemma patchHeader_nonempty: "patchHeader \<noteq> []"
  by (simp add: patchHeader_def)

lemma sublist_join: "x \<in> set xs \<Longrightarrow> sublist x (join sep xs)"
proof (induction xs)
  case Nil
  then show ?case by simp
next
  case (Cons y ys)
  show ?case
  proof (cases "x = y")
    case True
    then show ?thesis by (simp add: join_def)
  next
    case False
    with Cons.prems have "x \<in> set ys" by simp
    then obtain as bs where "ys = as @ x # bs" by (auto simp: in_set_conv_decomp)
    then have "join sep (y # ys)
                 = (y @ concat (map (\<lambda>z. sep @ z) as) @ sep) @ x @ concat (map (\<lambda>z. sep @ z) bs)"
      by (simp add: join_def)
    then show ?thesis unfolding sublist_def by blast
  qed
qed

lemma table_entries_nonempty: "map_of REMEDIATION_INSTRUCTIONS i = Some ins \<Longrightarrow> ins \<noteq> []"
  by (auto simp: REMEDIATION_INSTRUCTIONS_def split: if_splits)

lemma remediationLine_table:
  "map_of REMEDIATION_INSTRUCTIONS (qc_id f) = Some ins \<Longrightarrow> remediationLine f = tableLine f ins"
  using table_entries_nonempty [of "qc_id f" ins]
  by (simp add: remediationLine_def Let_def memberOf_def tableLine_def)

lemma remediationLine_generic:
  "memberOf REMEDIATION_INSTRUCTIONS (qc_id f) = None \<Longrightarrow> remediationLine f = genericLine f"
  by (simp add: remediationLine_def Let_def)

lemma remediationLine_shape:
  "remediationLine f = genericLine f \<or> (\<exists>t. remediationLine f = ''- '' @ (t @ detailSuffix f) @ [])"
  by (auto simp: remediationLine_def Let_def)

lemma sublist_mid: "sublist d z \<Longrightarrow> sublist d (a @ z @ b)"
proof -
  assume "sublist d z"
  then obtain ps ss where "z = ps @ d @ ss" unfolding sublist_def by blast
  then have "a @ z @ b = (a @ ps) @ d @ (ss @ b)" by simp
  then show ?thesis unfolding sublist_def by blast
qed

lemma detail_in_suffix: "qc_detail f = Some d \<Longrightarrow> sublist d (detailSuffix f)"
proof (cases "d = []")
  case True
  then show ?thesis by simp
next
  case False
  assume "qc_detail f = Some d"
  with False have "detailSuffix f = '' (Issue found: '' @ d @ '')''"
    by (simp add: detailSuffix_def truthy_def)
  then show ?thesis by (metis sublist_appendI)
qed

lemma detail_in_generic: "qc_detail f = Some d \<Longrightarrow> sublist d (genericLine f)"
proof (cases "d = []")
  case True
  then show ?thesis by simp
next
  case False
  assume "qc_detail f = Some d"
  with False have "genericLine f
      = (''- FIX REQUIRED for '' @ [CHR 0x22] @ qc_name f @ [CHR 0x22] @ '': '') @ d @ []"
    by (simp add: genericLine_def truthy_def)
  then show ?thesis by (metis sublist_appendI)
qed

lemma detail_in_line: "qc_detail f = Some d \<Longrightarrow> sublist d (remediationLine f)"
proof -
  assume d: "qc_detail f = Some d"
  from remediationLine_shape [of f] show ?thesis
  proof
    assume "remediationLine f = genericLine f"
    then show ?thesis using d by (simp add: detail_in_generic)
  next
    assume "\<exists>t. remediationLine f = ''- '' @ (t @ detailSuffix f) @ []"
    then obtain t where t: "remediationLine f = ''- '' @ (t @ detailSuffix f) @ []" by blast
    have "sublist d (detailSuffix f)" using d by (rule detail_in_suffix)
    then have "sublist d (t @ detailSuffix f @ [])" by (rule sublist_mid)
    then have "sublist d (''- '' @ (t @ detailSuffix f) @ [])"
      using sublist_mid [of d "t @ detailSuffix f" "''- ''" "[]"] by simp
    then show ?thesis using t by simp
  qed
qed

text \<open>
  What holds of the patch for every input: it is empty exactly when no check is hard and
  failed; otherwise it is the header, one line per hard failure in input order, and the
  footer. A hard failure's line occurs in the patch and contains the check's detail; it
  is the table's instruction when the table owns the check's id, and the generic line
  when the lookup finds nothing.
\<close>

lemma buildRetryPatch_lines:
  "(buildRetryPatch cs = [] \<longleftrightarrow> filter isHardFailure cs = [])
   \<and> (filter isHardFailure cs \<noteq> [] \<longrightarrow>
        buildRetryPatch cs
          = patchHeader @ join [CHR 0x0A] (map remediationLine (filter isHardFailure cs)) @ patchFooter)
   \<and> (\<forall>f \<in> set cs. isHardFailure f \<longrightarrow>
         sublist (remediationLine f) (buildRetryPatch cs)
         \<and> (\<forall>ins. map_of REMEDIATION_INSTRUCTIONS (qc_id f) = Some ins
               \<longrightarrow> remediationLine f = tableLine f ins)
         \<and> (memberOf REMEDIATION_INSTRUCTIONS (qc_id f) = None \<longrightarrow> remediationLine f = genericLine f)
         \<and> (\<forall>d. qc_detail f = Some d \<longrightarrow> sublist d (remediationLine f)))"
proof (intro conjI ballI impI allI)
  show "buildRetryPatch cs = [] \<longleftrightarrow> filter isHardFailure cs = []"
    by (simp add: buildRetryPatch_def Let_def patchHeader_nonempty)
next
  assume "filter isHardFailure cs \<noteq> []"
  then show "buildRetryPatch cs
          = patchHeader @ join [CHR 0x0A] (map remediationLine (filter isHardFailure cs)) @ patchFooter"
    by (simp add: buildRetryPatch_def Let_def)
next
  fix f assume f: "f \<in> set cs" "isHardFailure f"
  then have m: "remediationLine f \<in> set (map remediationLine (filter isHardFailure cs))" by simp
  have ne: "filter isHardFailure cs \<noteq> []" using f by (auto simp: filter_empty_conv)
  have "sublist (remediationLine f) (join [CHR 0x0A] (map remediationLine (filter isHardFailure cs)))"
    using m by (rule sublist_join)
  then show "sublist (remediationLine f) (buildRetryPatch cs)"
    using ne sublist_mid [of "remediationLine f" _ patchHeader patchFooter]
    by (simp add: buildRetryPatch_def Let_def)
qed (simp_all add: remediationLine_table remediationLine_generic detail_in_line)

text \<open>
  C6. The claim holds of the code except where the check's id names a member that every
  object inherits. The lookup \<open>REMEDIATION_INSTRUCTIONS[f.id]\<close> then finds that member,
  which is truthy, and the line is built from its text: for a hard failure with id
  \<open>constructor\<close>, name \<open>Unknown Check\<close> and detail \<open>Something failed\<close> the patch is
  non-empty and holds the one line
  \<open>- function Object() { [native code] } (Issue found: Something failed)\<close>,
  which is neither the generic fix-required line nor the line of any table entry.
\<close>

theorem buildRetryPatch_inherited_key:
  "isHardFailure constructorFailure
   \<and> map_of REMEDIATION_INSTRUCTIONS (qc_id constructorFailure) = None
   \<and> buildRetryPatch [constructorFailure]
       = patchHeader @ ''- function Object() { [native code] } (Issue found: Something failed)''
           @ patchFooter
   \<and> remediationLine constructorFailure \<noteq> genericLine constructorFailure
   \<and> remediationLine constructorFailure
       \<notin> set (map (tableLine constructorFailure) (map snd REMEDIATION_INSTRUCTIONS))"
  by code_simp

section \<open>The retry loop\<close>

declare retryLoop.simps [simp del]

lemma retryLoop_over:
  "\<not> attempt \<le> maxA \<Longrightarrow> retryLoop env v qaOn sg sp maxA attempt cur rep lst = ([], Inr (lst, rep))"
  by (subst retryLoop.simps) simp

lemma retryLoop_single_or_retry:
  assumes "attempt \<le> maxA"
  shows "(\<exists>a R. retryLoop env v qaOn sg sp maxA attempt cur rep lst = ([a], R)
            \<and> al_prompt a = cur
            \<and> terminalAttempt (activeValidator v qaOn sg) env maxA attempt rep a R)
       \<or> (\<exists>g data. attempt < maxA
             \<and> activeValidator v qaOn sg \<noteq> None
             \<and> \<not> passed data \<and> buildRetryPatch (checks data) \<noteq> []
             \<and> retryLoop env v qaOn sg sp maxA attempt cur rep lst
                 = apfst (Cons (logAttempt cur (Inr g) (Some (QaReturned (Inr data)))))
                     (retryLoop env v qaOn sg sp maxA (attempt + 1)
                        (sp @ buildRetryPatch (checks data))
                        (Some (data\<lparr>attempts := attempt, evaluationTimeMs := elapsedMs env attempt\<rparr>))
                        (Some g)))"
proof (cases "generateImage env attempt cur")
  case (Inl e)
  then show ?thesis using assms
    by (subst retryLoop.simps) (simp add: logAttempt_def terminalAttempt_def)
next
  case (Inr g)
  note gen = this
  show ?thesis
  proof (cases "if qaOn \<and> sg then v else None")
    case None
    then show ?thesis using assms gen
      by (subst retryLoop.simps) (simp add: logAttempt_def terminalAttempt_def activeValidator_def)
  next
    case (Some val)
    note act = this
    show ?thesis
    proof (cases "val attempt (imageData g)")
      case QaThrew
      then show ?thesis using assms gen act
        by (subst retryLoop.simps) (simp add: logAttempt_def terminalAttempt_def activeValidator_def)
    next
      case (QaReturned r)
      note ret = this
      show ?thesis
      proof (cases r)
        case (Inl e)
        then show ?thesis using assms gen act ret
          by (subst retryLoop.simps) (simp add: logAttempt_def terminalAttempt_def activeValidator_def)
      next
        case (Inr data)
        show ?thesis
        proof (cases "passed data \<or> attempt = maxA \<or> buildRetryPatch (checks data) = []")
          case True
          then show ?thesis using assms gen act ret Inr
            by (subst retryLoop.simps)
               (auto simp: logAttempt_def Let_def terminalAttempt_def activeValidator_def)
        next
          case False
          then have lt: "attempt < maxA" using assms by simp
          have "retryLoop env v qaOn sg sp maxA attempt cur rep lst
                 = apfst (Cons (logAttempt cur (Inr g) (Some (QaReturned (Inr data)))))
                     (retryLoop env v qaOn sg sp maxA (attempt + 1)
                        (sp @ buildRetryPatch (checks data))
                        (Some (data\<lparr>attempts := attempt, evaluationTimeMs := elapsedMs env attempt\<rparr>))
                        (Some g))"
            using assms gen act ret Inr False
            by (subst retryLoop.simps) (simp add: Let_def)
          moreover have "activeValidator v qaOn sg \<noteq> None"
            using act by (simp add: activeValidator_def)
          ultimately show ?thesis using False lt by blast
        qed
      qed
    qed
  qed
qed

lemma retryLoop_cases [consumes 1, case_names single retry]:
  assumes "attempt \<le> maxA"
  obtains (single) a R where
      "retryLoop env v qaOn sg sp maxA attempt cur rep lst = ([a], R)"
      "al_prompt a = cur"
      "terminalAttempt (activeValidator v qaOn sg) env maxA attempt rep a R"
  | (retry) g data where
      "attempt < maxA" "activeValidator v qaOn sg \<noteq> None"
      "\<not> passed data" "buildRetryPatch (checks data) \<noteq> []"
      "retryLoop env v qaOn sg sp maxA attempt cur rep lst
         = apfst (Cons (logAttempt cur (Inr g) (Some (QaReturned (Inr data)))))
             (retryLoop env v qaOn sg sp maxA (attempt + 1)
                (sp @ buildRetryPatch (checks data))
                (Some (data\<lparr>attempts := attempt, evaluationTimeMs := elapsedMs env attempt\<rparr>))
                (Some g))"
  using retryLoop_single_or_retry [OF assms, of env v qaOn sg sp cur rep lst]
  by (elim disjE exE conjE) (erule (2) single, erule (4) retry)

lemma retryLoop_length:
  "length (fst (retryLoop env v qaOn sg sp maxA attempt cur rep lst)) \<le> Suc maxA - attempt"
proof (induction "Suc maxA - attempt" arbitrary: attempt cur rep lst)
  case 0
  from "0.hyps" have "\<not> attempt \<le> maxA" by simp
  then show ?case by (simp add: retryLoop_over)
next
  case (Suc n)
  from Suc.hyps(2) have le: "attempt \<le> maxA" by simp
  from le show ?case
  proof (cases rule: retryLoop_cases [where env = env and v = v and qaOn = qaOn and sg = sg
        and sp = sp and cur = cur and rep = rep and lst = lst])
    case (single a R)
    then show ?thesis using le by simp
  next
    case (retry g data)
    have n: "n = Suc maxA - (attempt + 1)" using Suc.hyps(2) by simp
    show ?thesis
      using Suc.hyps(1) [OF n, of "sp @ buildRetryPatch (checks data)"
          "Some (data\<lparr>attempts := attempt, evaluationTimeMs := elapsedMs env attempt\<rparr>)" "Some g"]
        retry(1)
      by (simp add: retry(5))
  qed
qed

lemma retryLoop_first:
  assumes "attempt \<le> maxA"
  shows "fst (retryLoop env v qaOn sg sp maxA attempt cur rep lst) \<noteq> []
         \<and> al_prompt (fst (retryLoop env v qaOn sg sp maxA attempt cur rep lst) ! 0) = cur"
  using assms
  by (cases rule: retryLoop_cases [where env = env and v = v and qaOn = qaOn and sg = sg
        and sp = sp and cur = cur and rep = rep and lst = lst])
     (simp_all add: logAttempt_def)

lemma retryLoop_chain:
  "Suc i < length (fst (retryLoop env v qaOn sg sp maxA attempt cur rep lst)) \<Longrightarrow>
     \<exists>g data. al_generation (fst (retryLoop env v qaOn sg sp maxA attempt cur rep lst) ! i) = Inr g
       \<and> al_qa (fst (retryLoop env v qaOn sg sp maxA attempt cur rep lst) ! i)
            = Some (QaReturned (Inr data))
       \<and> \<not> passed data
       \<and> al_prompt (fst (retryLoop env v qaOn sg sp maxA attempt cur rep lst) ! Suc i)
            = sp @ buildRetryPatch (checks data)"
proof (induction "Suc maxA - attempt" arbitrary: attempt cur rep lst i)
  case 0
  from "0.hyps" have "\<not> attempt \<le> maxA" by simp
  then show ?case using "0.prems" by (simp add: retryLoop_over)
next
  case (Suc n)
  from Suc.hyps(2) have le: "attempt \<le> maxA" by simp
  from le show ?case
  proof (cases rule: retryLoop_cases [where env = env and v = v and qaOn = qaOn and sg = sg
        and sp = sp and cur = cur and rep = rep and lst = lst])
    case (single a R)
    then show ?thesis using Suc.prems by simp
  next
    case (retry g data)
    let ?next = "retryLoop env v qaOn sg sp maxA (attempt + 1)
                   (sp @ buildRetryPatch (checks data))
                   (Some (data\<lparr>attempts := attempt, evaluationTimeMs := elapsedMs env attempt\<rparr>))
                   (Some g)"
    have n: "n = Suc maxA - (attempt + 1)" using Suc.hyps(2) by simp
    have first: "fst ?next \<noteq> [] \<and> al_prompt (fst ?next ! 0) = sp @ buildRetryPatch (checks data)"
      using retry(1) by (intro retryLoop_first) simp
    show ?thesis
    proof (cases i)
      case 0
      then show ?thesis using first retry(3) by (simp add: retry(5) logAttempt_def)
    next
      case ij: (Suc j)
      have "Suc j < length (fst ?next)" using Suc.prems ij by (simp add: retry(5))
      from Suc.hyps(1) [OF n this] show ?thesis using ij by (simp add: retry(5))
    qed
  qed
qed


lemma retryLoop_without_validator:
  assumes "activeValidator v qaOn sg = None" and "attempt \<le> maxA"
  shows "\<exists>a. fst (retryLoop env v qaOn sg sp maxA attempt cur rep lst) = [a] \<and> al_qa a = None
           \<and> (\<forall>g r. snd (retryLoop env v qaOn sg sp maxA attempt cur rep lst) = Inr (g, r) \<longrightarrow> r = rep)"
  using assms(2)
proof (cases rule: retryLoop_cases [where env = env and v = v and qaOn = qaOn and sg = sg
        and sp = sp and cur = cur and rep = rep and lst = lst])
  case (single a R)
  then show ?thesis using assms(1) unfolding terminalAttempt_def by auto
next
  case (retry g data)
  then show ?thesis using assms(1) by simp
qed

lemma retryLoop_with_validator:
  assumes "activeValidator v qaOn sg \<noteq> None" and "attempt \<le> maxA"
    and "al_generation (fst (retryLoop env v qaOn sg sp maxA attempt cur rep lst) ! 0) = Inr g"
  shows "al_qa (fst (retryLoop env v qaOn sg sp maxA attempt cur rep lst) ! 0) \<noteq> None"
  using assms(2)
proof (cases rule: retryLoop_cases [where env = env and v = v and qaOn = qaOn and sg = sg
        and sp = sp and cur = cur and rep = rep and lst = lst])
  case (single a R)
  then show ?thesis using assms(1,3) unfolding terminalAttempt_def by auto
next
  case (retry g' data)
  then show ?thesis by (simp add: logAttempt_def)
qed

lemma retryLoop_head:
  assumes "attempt \<le> maxA"
  shows "al_generation (fst (retryLoop env v qaOn sg sp maxA attempt cur rep lst) ! 0)
           = generateImage env attempt cur
         \<and> (\<forall>q. al_qa (fst (retryLoop env v qaOn sg sp maxA attempt cur rep lst) ! 0) = Some q \<longrightarrow>
               (\<exists>val g. activeValidator v qaOn sg = Some val
                   \<and> generateImage env attempt cur = Inr g
                   \<and> q = val attempt (imageData g)))"
proof (cases "generateImage env attempt cur")
  case (Inl e)
  then show ?thesis using assms
    by (subst (1 2) retryLoop.simps) (simp add: logAttempt_def)
next
  case (Inr g)
  note gen = this
  show ?thesis
  proof (cases "if qaOn \<and> sg then v else None")
    case None
    then show ?thesis using assms gen
      by (subst (1 2) retryLoop.simps) (simp add: logAttempt_def)
  next
    case (Some val)
    note act = this
    show ?thesis
    proof (cases "val attempt (imageData g)")
      case QaThrew
      then show ?thesis using assms gen act
        by (subst (1 2) retryLoop.simps) (simp add: logAttempt_def activeValidator_def)
    next
      case (QaReturned r)
      note ret = this
      show ?thesis
      proof (cases r)
        case (Inl e)
        then show ?thesis using assms gen act ret
          by (subst (1 2) retryLoop.simps) (simp add: logAttempt_def activeValidator_def)
      next
        case (Inr data)
        then show ?thesis using assms gen act ret
          by (subst (1 2) retryLoop.simps) (simp add: logAttempt_def activeValidator_def Let_def)
      qed
    qed
  qed
qed

lemma retryLoop_faithful:
  "i < length (fst (retryLoop env v qaOn sg sp maxA attempt cur rep lst)) \<Longrightarrow>
     al_generation (fst (retryLoop env v qaOn sg sp maxA attempt cur rep lst) ! i)
       = generateImage env (attempt + i)
           (al_prompt (fst (retryLoop env v qaOn sg sp maxA attempt cur rep lst) ! i))
     \<and> (\<forall>q. al_qa (fst (retryLoop env v qaOn sg sp maxA attempt cur rep lst) ! i) = Some q \<longrightarrow>
           (\<exists>val g. activeValidator v qaOn sg = Some val
              \<and> al_generation (fst (retryLoop env v qaOn sg sp maxA attempt cur rep lst) ! i) = Inr g
              \<and> q = val (attempt + i) (imageData g)))"
proof (induction "Suc maxA - attempt" arbitrary: attempt cur rep lst i)
  case 0
  from "0.hyps" have "\<not> attempt \<le> maxA" by simp
  then show ?case using "0.prems" by (simp add: retryLoop_over)
next
  case (Suc n)
  from Suc.hyps(2) have le: "attempt \<le> maxA" by simp
  have first: "al_prompt (fst (retryLoop env v qaOn sg sp maxA attempt cur rep lst) ! 0) = cur"
    using retryLoop_first [OF le] by blast
  have head: "al_generation (fst (retryLoop env v qaOn sg sp maxA attempt cur rep lst) ! 0)
           = generateImage env attempt cur
         \<and> (\<forall>q. al_qa (fst (retryLoop env v qaOn sg sp maxA attempt cur rep lst) ! 0) = Some q \<longrightarrow>
               (\<exists>val g. activeValidator v qaOn sg = Some val
                   \<and> generateImage env attempt cur = Inr g
                   \<and> q = val attempt (imageData g)))"
    using le by (rule retryLoop_head)
  show ?case
  proof (cases i)
    case 0
    then show ?thesis using first head by simp
  next
    case ij: (Suc j)
    from le show ?thesis
    proof (cases rule: retryLoop_cases [where env = env and v = v and qaOn = qaOn and sg = sg
          and sp = sp and cur = cur and rep = rep and lst = lst])
      case (single a R)
      then show ?thesis using Suc.prems ij by simp
    next
      case (retry g data)
      let ?next = "retryLoop env v qaOn sg sp maxA (attempt + 1)
                     (sp @ buildRetryPatch (checks data))
                     (Some (data\<lparr>attempts := attempt, evaluationTimeMs := elapsedMs env attempt\<rparr>))
                     (Some g)"
      have n: "n = Suc maxA - (attempt + 1)" using Suc.hyps(2) by simp
      have j: "j < length (fst ?next)" using Suc.prems ij by (simp add: retry(5))
      have L: "fst (retryLoop env v qaOn sg sp maxA attempt cur rep lst) ! i = fst ?next ! j"
        by (simp add: retry(5) ij)
      have A: "attempt + i = (attempt + 1) + j" by (simp add: ij)
      show ?thesis unfolding L A by (rule Suc.hyps(1) [OF n j])
    qed
  qed
qed

lemma retryLoop_success:
  "snd (retryLoop env v qaOn sg sp maxA attempt cur rep lst) = Inr (Some g, r) \<Longrightarrow> attempt \<le> maxA \<Longrightarrow>
     al_generation (last (fst (retryLoop env v qaOn sg sp maxA attempt cur rep lst))) = Inr g"
proof (induction "Suc maxA - attempt" arbitrary: attempt cur rep lst)
  case 0
  then show ?case by simp
next
  case (Suc n)
  from Suc.prems(2) show ?case
  proof (cases rule: retryLoop_cases [where env = env and v = v and qaOn = qaOn and sg = sg
        and sp = sp and cur = cur and rep = rep and lst = lst])
    case (single a R)
    have "R = Inr (Some g, r)" using Suc.prems(1) by (simp add: single(1))
    then have "al_generation a = Inr g"
      using single(3) unfolding terminalAttempt_def by auto
    then show ?thesis by (simp add: single(1))
  next
    case (retry g' data)
    let ?next = "retryLoop env v qaOn sg sp maxA (attempt + 1)
                   (sp @ buildRetryPatch (checks data))
                   (Some (data\<lparr>attempts := attempt, evaluationTimeMs := elapsedMs env attempt\<rparr>))
                   (Some g')"
    have n: "n = Suc maxA - (attempt + 1)" using Suc.hyps(2) by simp
    have s: "snd ?next = Inr (Some g, r)" using Suc.prems(1) by (simp add: retry(5))
    have le: "attempt + 1 \<le> maxA" using retry(1) by simp
    have ne: "fst ?next \<noteq> []" using retryLoop_first [OF le] by blast
    from Suc.hyps(1) [OF n s le] show ?thesis using ne by (simp add: retry(5))
  qed
qed

lemma retryLoop_last_success:
  "attempt \<le> maxA \<Longrightarrow>
   al_generation (last (fst (retryLoop env v qaOn sg sp maxA attempt cur rep lst))) = Inr g \<Longrightarrow>
     \<exists>r. snd (retryLoop env v qaOn sg sp maxA attempt cur rep lst) = Inr (Some g, r)"
proof (induction "Suc maxA - attempt" arbitrary: attempt cur rep lst)
  case 0
  then show ?case by simp
next
  case (Suc n)
  from Suc.prems(1) show ?case
  proof (cases rule: retryLoop_cases [where env = env and v = v and qaOn = qaOn and sg = sg
        and sp = sp and cur = cur and rep = rep and lst = lst])
    case (single a R)
    have "al_generation a = Inr g" using Suc.prems(2) by (simp add: single(1))
    then have "\<exists>r. R = Inr (Some g, r)"
      using single(3) unfolding terminalAttempt_def by auto
    then show ?thesis by (simp add: single(1))
  next
    case (retry g' data)
    let ?next = "retryLoop env v qaOn sg sp maxA (attempt + 1)
                   (sp @ buildRetryPatch (checks data))
                   (Some (data\<lparr>attempts := attempt, evaluationTimeMs := elapsedMs env attempt\<rparr>))
                   (Some g')"
    have n: "n = Suc maxA - (attempt + 1)" using Suc.hyps(2) by simp
    have le: "attempt + 1 \<le> maxA" using retry(1) by simp
    have ne: "fst ?next \<noteq> []" using retryLoop_first [OF le] by blast
    have l: "al_generation (last (fst ?next)) = Inr g"
      using Suc.prems(2) ne by (simp add: retry(5))
    from Suc.hyps(1) [OF n le l] show ?thesis by (simp add: retry(5))
  qed
qed

section \<open>The handler's attempts\<close>

lemma handler_attempts:
  "hr_attempts (handleGenerateImage env created v0 config params sp)
     = fst (handlerLoop env created v0 config params sp)"
  by (simp add: handleGenerateImage_def handlerLoop_def qaActive_def Let_def
      split: sum.split prod.split option.split)


lemma handler_success:
  "hr_response (handleGenerateImage env created v0 config params sp) = Inr resp \<Longrightarrow>
     \<exists>g. snd (handlerLoop env created v0 config params sp) = Inr (Some g, sr_qa resp)
       \<and> sr_result resp = g"
  by (auto simp: handleGenerateImage_def handlerLoop_def qaActive_def Let_def persist_def
      split: sum.splits prod.splits option.splits)

lemma maxAttempts_pos: "1 \<le> maxAttemptsOf q config"
  by (simp add: maxAttemptsOf_def)

lemma handler_active:
  "activeValidator (ensureQaValidator params created v0) (qaActive params created v0 config)
      (p_figureStyle params \<noteq> None) \<noteq> None
   \<longleftrightarrow> qaActive params created v0 config"
  by (auto simp: activeValidator_def qaActive_def qaEnabled_def)

text \<open>Each attempt of the handler is the backend's answer to the prompt it records.\<close>

lemma handler_faithful:
  assumes "i < length (hr_attempts (handleGenerateImage env created v0 config params sp))"
  shows "al_generation (hr_attempts (handleGenerateImage env created v0 config params sp) ! i)
           = generateImage env (Suc i)
               (al_prompt (hr_attempts (handleGenerateImage env created v0 config params sp) ! i))
         \<and> (\<forall>q. al_qa (hr_attempts (handleGenerateImage env created v0 config params sp) ! i) = Some q \<longrightarrow>
               (\<exists>val g. ensureQaValidator params created v0 = Some val
                  \<and> al_generation (hr_attempts (handleGenerateImage env created v0 config params sp) ! i)
                       = Inr g
                  \<and> q = val (Suc i) (imageData g)))"
proof -
  have i: "i < length (fst (handlerLoop env created v0 config params sp))"
    using assms by (simp add: handler_attempts)
  have act: "activeValidator (ensureQaValidator params created v0) (qaActive params created v0 config)
               (p_figureStyle params \<noteq> None) = Some val
             \<Longrightarrow> ensureQaValidator params created v0 = Some val" for val
    by (simp add: activeValidator_def split: if_splits)
  from retryLoop_faithful [OF i [unfolded handlerLoop_def]]
  show ?thesis unfolding handler_attempts handlerLoop_def using act by auto
qed

lemma handler_saveCall:
  "hr_saveCall (handleGenerateImage env created v0 config params sp) = Some (dat, p) \<Longrightarrow>
     \<exists>g r. snd (handlerLoop env created v0 config params sp) = Inr (Some g, r)
       \<and> dat = imageData g
       \<and> sanitizeFilePath env (pathJoin env (imageOutputDir config)
            (outputFileName env (p_fileName params) (imageData g))) = Inr p"
  by (auto simp: handleGenerateImage_def handlerLoop_def qaActive_def Let_def persist_def
      split: sum.splits prod.splits option.splits)

lemma handler_saves:
  "snd (handlerLoop env created v0 config params sp) = Inr (Some g, r) \<Longrightarrow>
   sanitizeFilePath env (pathJoin env (imageOutputDir config)
            (outputFileName env (p_fileName params) (imageData g))) = Inr p \<Longrightarrow>
     hr_saveCall (handleGenerateImage env created v0 config params sp) = Some (imageData g, p)"
  by (auto simp: handleGenerateImage_def handlerLoop_def qaActive_def Let_def persist_def
      split: sum.splits prod.splits option.splits)

lemma handler_success_saved:
  "hr_response (handleGenerateImage env created v0 config params sp) = Inr resp \<Longrightarrow>
     \<exists>p. hr_saveCall (handleGenerateImage env created v0 config params sp)
            = Some (imageData (sr_result resp), p)
       \<and> saveImage env (imageData (sr_result resp)) p = Inr (sr_path resp)"
  by (auto simp: handleGenerateImage_def handlerLoop_def qaActive_def Let_def persist_def
      split: sum.splits prod.splits option.splits)

lemma handler_loop_of_last:
  "al_generation (last (fst (handlerLoop env created v0 config params sp))) = Inr g \<Longrightarrow>
     \<exists>r. snd (handlerLoop env created v0 config params sp) = Inr (Some g, r)"
  unfolding handlerLoop_def using retryLoop_last_success [OF maxAttempts_pos] by blast

lemma handler_last_of_loop:
  "snd (handlerLoop env created v0 config params sp) = Inr (Some g, r) \<Longrightarrow>
     al_generation (last (fst (handlerLoop env created v0 config params sp))) = Inr g"
  unfolding handlerLoop_def using retryLoop_success [OF _ maxAttempts_pos] by blast

text \<open>
  C3. For a request that has reached the generation loop. Every attempt is one call of
  the image backend, the call numbered by the attempt with the prompt the attempt
  records, and a QA outcome on an attempt is what the validator returned for that
  attempt's image. When QA is not active the handler makes exactly one attempt, calls the
  validator on none, and a successful response carries no QA report. When QA is active
  with \<open>N\<close> configured retries it makes at least one and at most \<open>N + 1\<close> attempts, and
  an attempt whose report has \<open>passed\<close> true is the last one.
\<close>

theorem qa_attempt_budget:
  "let H = handleGenerateImage env created v0 config params sp; L = hr_attempts H
   in (\<forall>i < length L. al_generation (L ! i) = generateImage env (Suc i) (al_prompt (L ! i)))
      \<and> (\<forall>i < length L. \<forall>q. al_qa (L ! i) = Some q \<longrightarrow>
            (\<exists>val g. ensureQaValidator params created v0 = Some val
               \<and> al_generation (L ! i) = Inr g \<and> q = val (Suc i) (imageData g)))
      \<and> (\<not> qaActive params created v0 config \<longrightarrow>
         length L = 1 \<and> (\<forall>a \<in> set L. al_qa a = None)
         \<and> (\<forall>resp. hr_response H = Inr resp \<longrightarrow> sr_qa resp = None))
      \<and> (qaActive params created v0 config \<longrightarrow>
           1 \<le> length L \<and> length L \<le> scientificQaMaxRetries config + 1
           \<and> (\<forall>i < length L. \<forall>data.
                 al_qa (L ! i) = Some (QaReturned (Inr data)) \<and> passed data \<longrightarrow> Suc i = length L))"
proof -
  let ?H = "handleGenerateImage env created v0 config params sp"
  let ?loop = "handlerLoop env created v0 config params sp"
  let ?Q = "qaActive params created v0 config"
  have L: "hr_attempts ?H = fst ?loop" by (rule handler_attempts)
  have gen: "\<forall>i < length (hr_attempts ?H).
      al_generation (hr_attempts ?H ! i) = generateImage env (Suc i) (al_prompt (hr_attempts ?H ! i))"
    using handler_faithful by blast
  have qa: "\<forall>i < length (hr_attempts ?H). \<forall>q. al_qa (hr_attempts ?H ! i) = Some q \<longrightarrow>
            (\<exists>val g. ensureQaValidator params created v0 = Some val
               \<and> al_generation (hr_attempts ?H ! i) = Inr g \<and> q = val (Suc i) (imageData g))"
    using handler_faithful by blast
  have off: "length (fst ?loop) = 1 \<and> (\<forall>a \<in> set (fst ?loop). al_qa a = None)
         \<and> (\<forall>resp. hr_response ?H = Inr resp \<longrightarrow> sr_qa resp = None)" if nq: "\<not> ?Q"
  proof -
    have act: "activeValidator (ensureQaValidator params created v0) ?Q (p_figureStyle params \<noteq> None) = None"
      using nq handler_active [of params created v0 config] by simp
    obtain a where a: "fst ?loop = [a]" "al_qa a = None"
      and r: "\<forall>g r. snd ?loop = Inr (g, r) \<longrightarrow> r = None"
      using retryLoop_without_validator [OF act maxAttempts_pos]
      unfolding handlerLoop_def by blast
    have "sr_qa resp = None" if "hr_response ?H = Inr resp" for resp
      using handler_success [OF that] r by blast
    then show ?thesis using a by simp
  qed
  have on: "1 \<le> length (fst ?loop) \<and> length (fst ?loop) \<le> scientificQaMaxRetries config + 1
           \<and> (\<forall>i < length (fst ?loop). \<forall>data.
                 al_qa (fst ?loop ! i) = Some (QaReturned (Inr data)) \<and> passed data
                   \<longrightarrow> Suc i = length (fst ?loop))" if q: "?Q"
  proof (intro conjI allI impI)
    have "fst ?loop \<noteq> []"
      using retryLoop_first [OF maxAttempts_pos] unfolding handlerLoop_def by blast
    then show "1 \<le> length (fst ?loop)" by (cases "fst ?loop") simp_all
  next
    have "length (fst ?loop) \<le> Suc (maxAttemptsOf ?Q config) - 1"
      unfolding handlerLoop_def by (rule retryLoop_length)
    then show "length (fst ?loop) \<le> scientificQaMaxRetries config + 1"
      using q by (simp add: maxAttemptsOf_def)
  next
    fix i data
    assume i: "i < length (fst ?loop)"
      and p: "al_qa (fst ?loop ! i) = Some (QaReturned (Inr data)) \<and> passed data"
    show "Suc i = length (fst ?loop)"
    proof (rule ccontr)
      assume "Suc i \<noteq> length (fst ?loop)"
      then have "Suc i < length (fst ?loop)" using i by simp
      then obtain d where "al_qa (fst ?loop ! i) = Some (QaReturned (Inr d))" "\<not> passed d"
        using retryLoop_chain unfolding handlerLoop_def by blast
      then show False using p by simp
    qed
  qed
  have rest: "(\<not> ?Q \<longrightarrow>
         length (hr_attempts ?H) = 1 \<and> (\<forall>a \<in> set (hr_attempts ?H). al_qa a = None)
         \<and> (\<forall>resp. hr_response ?H = Inr resp \<longrightarrow> sr_qa resp = None))
      \<and> (?Q \<longrightarrow>
           1 \<le> length (hr_attempts ?H) \<and> length (hr_attempts ?H) \<le> scientificQaMaxRetries config + 1
           \<and> (\<forall>i < length (hr_attempts ?H). \<forall>data.
                 al_qa (hr_attempts ?H ! i) = Some (QaReturned (Inr data)) \<and> passed data
                   \<longrightarrow> Suc i = length (hr_attempts ?H)))"
    unfolding L using off on by blast
  show ?thesis unfolding Let_def using gen qa rest by (intro conjI) blast+
qed

text \<open>
  C7. The first call of the image backend is sent the structured prompt. Every later
  call is sent the structured prompt followed by the retry patch built from the checks of
  the report that the validator returned for the image of the attempt just before it,
  and nothing else: no earlier patch stays in the prompt.
\<close>

theorem retry_prompt_from_original:
  "let L = hr_attempts (handleGenerateImage env created v0 config params sp)
   in L \<noteq> [] \<and> al_prompt (L ! 0) = sp \<and> al_generation (L ! 0) = generateImage env 1 sp
      \<and> (\<forall>i. Suc i < length L \<longrightarrow>
            (\<exists>data val g. ensureQaValidator params created v0 = Some val
               \<and> al_generation (L ! i) = Inr g
               \<and> val (Suc i) (imageData g) = QaReturned (Inr data)
               \<and> al_qa (L ! i) = Some (QaReturned (Inr data))
               \<and> al_prompt (L ! Suc i) = sp @ buildRetryPatch (checks data)
               \<and> al_generation (L ! Suc i)
                    = generateImage env (Suc (Suc i)) (sp @ buildRetryPatch (checks data))))"
proof -
  let ?H = "handleGenerateImage env created v0 config params sp"
  let ?L = "hr_attempts ?H"
  let ?loop = "handlerLoop env created v0 config params sp"
  have first: "?L \<noteq> [] \<and> al_prompt (?L ! 0) = sp"
    using retryLoop_first [OF maxAttempts_pos] unfolding handler_attempts handlerLoop_def by blast
  then have pos: "0 < length ?L" by simp
  have gen0: "al_generation (?L ! 0) = generateImage env 1 sp"
    using handler_faithful [OF pos] first by simp
  have step: "\<exists>data val g. ensureQaValidator params created v0 = Some val
               \<and> al_generation (?L ! i) = Inr g
               \<and> val (Suc i) (imageData g) = QaReturned (Inr data)
               \<and> al_qa (?L ! i) = Some (QaReturned (Inr data))
               \<and> al_prompt (?L ! Suc i) = sp @ buildRetryPatch (checks data)
               \<and> al_generation (?L ! Suc i)
                    = generateImage env (Suc (Suc i)) (sp @ buildRetryPatch (checks data))"
    if i: "Suc i < length ?L" for i
  proof -
    have "Suc i < length (fst ?loop)" using i by (simp add: handler_attempts)
    then obtain data where qa: "al_qa (?L ! i) = Some (QaReturned (Inr data))"
      and pr: "al_prompt (?L ! Suc i) = sp @ buildRetryPatch (checks data)"
      using retryLoop_chain unfolding handler_attempts handlerLoop_def by blast
    have ii: "i < length ?L" using i by simp
    obtain val g where v: "ensureQaValidator params created v0 = Some val"
      and g: "al_generation (?L ! i) = Inr g"
      and q: "QaReturned (Inr data) = val (Suc i) (imageData g)"
      using handler_faithful [OF ii] qa by blast
    have q': "val (Suc i) (imageData g) = QaReturned (Inr data)" using q by simp
    have "al_generation (?L ! Suc i) = generateImage env (Suc (Suc i)) (al_prompt (?L ! Suc i))"
      using handler_faithful [OF i] by blast
    then have gs: "al_generation (?L ! Suc i)
                    = generateImage env (Suc (Suc i)) (sp @ buildRetryPatch (checks data))"
      by (simp only: pr)
    show ?thesis using v g q' qa pr gs by blast
  qed
  show ?thesis unfolding Let_def using first gen0 step by blast
qed


text \<open>
  C9, as the code has it. QA is active for a request exactly when a figure style is given,
  the global setting or the per-call opt-in is true, and a validator is available: one
  that exists already, or one created on demand for a call that opts in. The validator is
  called on some attempt only when QA is active, and when QA is active it is called on
  the first artifact generated.
\<close>

theorem qa_active_iff:
  "(qaActive params created v0 config \<longleftrightarrow>
      p_figureStyle params \<noteq> None
      \<and> (enableScientificQa config \<or> p_validateQa params = Some True)
      \<and> (v0 \<noteq> None \<or> (p_validateQa params = Some True \<and> (\<exists>v. created = Inr v))))
   \<and> (let L = hr_attempts (handleGenerateImage env created v0 config params sp)
      in ((\<exists>a \<in> set L. al_qa a \<noteq> None) \<longrightarrow> qaActive params created v0 config)
         \<and> (qaActive params created v0 config \<and> (\<exists>g. al_generation (L ! 0) = Inr g)
               \<longrightarrow> al_qa (L ! 0) \<noteq> None))"
proof (intro conjI)
  show "qaActive params created v0 config \<longleftrightarrow>
      p_figureStyle params \<noteq> None
      \<and> (enableScientificQa config \<or> p_validateQa params = Some True)
      \<and> (v0 \<noteq> None \<or> (p_validateQa params = Some True \<and> (\<exists>v. created = Inr v)))"
    by (cases created) (auto simp: qaActive_def qaEnabled_def ensureQaValidator_def)
next
  let ?loop = "handlerLoop env created v0 config params sp"
  let ?Q = "qaActive params created v0 config"
  let ?act = "activeValidator (ensureQaValidator params created v0) ?Q (p_figureStyle params \<noteq> None)"
  have a: "?Q" if "\<exists>a \<in> set (fst ?loop). al_qa a \<noteq> None"
  proof (rule ccontr)
    assume "\<not> ?Q"
    then have "?act = None" using handler_active [of params created v0 config] by simp
    then have "\<exists>a. fst ?loop = [a] \<and> al_qa a = None"
      unfolding handlerLoop_def using retryLoop_without_validator [OF _ maxAttempts_pos] by blast
    then show False using that by auto
  qed
  have b: "al_qa (fst ?loop ! 0) \<noteq> None" if "?Q" "al_generation (fst ?loop ! 0) = Inr g" for g
  proof -
    have "?act \<noteq> None" using that(1) handler_active [of params created v0 config] by simp
    from retryLoop_with_validator [OF this maxAttempts_pos] that(2)
    show ?thesis unfolding handlerLoop_def by blast
  qed
  show "let L = hr_attempts (handleGenerateImage env created v0 config params sp)
      in ((\<exists>a \<in> set L. al_qa a \<noteq> None) \<longrightarrow> ?Q)
         \<and> (?Q \<and> (\<exists>g. al_generation (L ! 0) = Inr g) \<longrightarrow> al_qa (L ! 0) \<noteq> None)"
    unfolding Let_def handler_attempts using a b by blast
qed

theorem qa_attempt_budget_witness:
  "\<not> qaActive plainParams unavailable None exampleConfig
   \<and> length (hr_attempts (handleGenerateImage echoEnv unavailable None exampleConfig
                 plainParams ''PROMPT'')) = 1
   \<and> al_generation (hr_attempts (handleGenerateImage echoEnv unavailable None exampleConfig
                 plainParams ''PROMPT'') ! 0)
       = Inr \<lparr>imageData = jpegBytes, metadata = ''PROMPT''\<rparr>
   \<and> qaActive exampleParams unavailable (Some exampleValidator) exampleConfig
   \<and> length (hr_attempts (handleGenerateImage echoEnv unavailable (Some exampleValidator)
                 exampleConfig exampleParams ''PROMPT'')) \<le> scientificQaMaxRetries exampleConfig + 1
   \<and> al_qa (hr_attempts (handleGenerateImage echoEnv unavailable (Some exampleValidator)
                 exampleConfig exampleParams ''PROMPT'') ! 2) = Some (QaReturned (Inr passingReport))
   \<and> passed passingReport
   \<and> Suc 2 = length (hr_attempts (handleGenerateImage echoEnv unavailable (Some exampleValidator)
                 exampleConfig exampleParams ''PROMPT''))"
proof -
  let ?L1 = "hr_attempts (handleGenerateImage echoEnv unavailable None exampleConfig
                 plainParams ''PROMPT'')"
  let ?L = "hr_attempts (handleGenerateImage echoEnv unavailable (Some exampleValidator)
                 exampleConfig exampleParams ''PROMPT'')"
  have off: "\<not> qaActive plainParams unavailable None exampleConfig"
    by (simp add: qaActive_def qaEnabled_def plainParams_def exampleParams_def)
  have on: "qaActive exampleParams unavailable (Some exampleValidator) exampleConfig"
    by (simp add: qaActive_def qaEnabled_def ensureQaValidator_def exampleParams_def)
  have one: "length ?L1 = 1"
    and gen1: "\<forall>i < length ?L1.
                 al_generation (?L1 ! i) = generateImage echoEnv (Suc i) (al_prompt (?L1 ! i))"
    using qa_attempt_budget [of echoEnv unavailable None exampleConfig plainParams "''PROMPT''"] off
    by (simp_all add: Let_def)
  have p1: "al_prompt (?L1 ! 0) = ''PROMPT''" by code_simp
  have g1: "al_generation (?L1 ! 0) = Inr \<lparr>imageData = jpegBytes, metadata = ''PROMPT''\<rparr>"
    using gen1 one p1 by (simp add: echoEnv_def)
  have budget: "length ?L \<le> scientificQaMaxRetries exampleConfig + 1"
    and stop: "\<forall>i < length ?L. \<forall>data.
                 al_qa (?L ! i) = Some (QaReturned (Inr data)) \<and> passed data \<longrightarrow> Suc i = length ?L"
    using qa_attempt_budget [of echoEnv unavailable "Some exampleValidator" exampleConfig
        exampleParams "''PROMPT''"] on
    by (simp_all add: Let_def)
  have third: "2 < length ?L" by code_simp
  have qa3: "al_qa (?L ! 2) = Some (QaReturned (Inr passingReport))"
    unfolding passingReport_def by code_simp
  have ok: "passed passingReport" unfolding passingReport_def by code_simp
  have "Suc 2 = length ?L" using stop third qa3 ok by blast
  then show ?thesis using off on one g1 budget qa3 ok by simp
qed

theorem retry_prompt_from_original_witness:
  "Suc 1 < length (hr_attempts (handleGenerateImage echoEnv unavailable (Some exampleValidator)
                 exampleConfig exampleParams ''PROMPT''))
   \<and> (\<exists>data. al_qa (hr_attempts (handleGenerateImage echoEnv unavailable (Some exampleValidator)
                 exampleConfig exampleParams ''PROMPT'') ! 1) = Some (QaReturned (Inr data))
         \<and> al_prompt (hr_attempts (handleGenerateImage echoEnv unavailable (Some exampleValidator)
                 exampleConfig exampleParams ''PROMPT'') ! Suc 1)
             = ''PROMPT'' @ buildRetryPatch (checks data)
         \<and> al_generation (hr_attempts (handleGenerateImage echoEnv unavailable (Some exampleValidator)
                 exampleConfig exampleParams ''PROMPT'') ! Suc 1)
             = Inr \<lparr>imageData = jpegBytes,
                    metadata = ''PROMPT'' @ buildRetryPatch (checks data)\<rparr>)"
proof -
  let ?L = "hr_attempts (handleGenerateImage echoEnv unavailable (Some exampleValidator)
                 exampleConfig exampleParams ''PROMPT'')"
  have h: "Suc 1 < length ?L" by code_simp
  have "\<forall>i. Suc i < length ?L \<longrightarrow>
            (\<exists>data. al_qa (?L ! i) = Some (QaReturned (Inr data))
               \<and> al_prompt (?L ! Suc i) = ''PROMPT'' @ buildRetryPatch (checks data)
               \<and> al_generation (?L ! Suc i)
                    = generateImage echoEnv (Suc (Suc i)) (''PROMPT'' @ buildRetryPatch (checks data)))"
    using retry_prompt_from_original [of echoEnv unavailable "Some exampleValidator" exampleConfig
        exampleParams "''PROMPT''"]
    unfolding Let_def by blast
  then obtain data where "al_qa (?L ! 1) = Some (QaReturned (Inr data))"
    "al_prompt (?L ! Suc 1) = ''PROMPT'' @ buildRetryPatch (checks data)"
    "al_generation (?L ! Suc 1)
       = generateImage echoEnv (Suc (Suc 1)) (''PROMPT'' @ buildRetryPatch (checks data))"
    using h by blast
  then show ?thesis using h by (auto simp: echoEnv_def)
qed


theorem qa_active_iff_witness:
  "qaActive exampleParams unavailable (Some exampleValidator) exampleConfig
   \<and> al_generation (hr_attempts (handleGenerateImage exampleEnv unavailable (Some exampleValidator)
                 exampleConfig exampleParams ''PROMPT'') ! 0) = Inr exampleImage
   \<and> al_qa (hr_attempts (handleGenerateImage exampleEnv unavailable (Some exampleValidator)
                 exampleConfig exampleParams ''PROMPT'') ! 0) \<noteq> None"
proof -
  let ?L = "hr_attempts (handleGenerateImage exampleEnv unavailable (Some exampleValidator)
                 exampleConfig exampleParams ''PROMPT'')"
  have "qaActive exampleParams unavailable (Some exampleValidator) exampleConfig \<longleftrightarrow>
      p_figureStyle exampleParams \<noteq> None
      \<and> (enableScientificQa exampleConfig \<or> p_validateQa exampleParams = Some True)
      \<and> (Some exampleValidator \<noteq> None
          \<or> (p_validateQa exampleParams = Some True \<and> (\<exists>v. unavailable = Inr v)))"
    and run: "qaActive exampleParams unavailable (Some exampleValidator) exampleConfig
                \<and> (\<exists>g. al_generation (?L ! 0) = Inr g) \<longrightarrow> al_qa (?L ! 0) \<noteq> None"
    using qa_active_iff [of exampleParams unavailable "Some exampleValidator" exampleConfig
        exampleEnv "''PROMPT''"]
    by (simp_all add: Let_def)
  then have on: "qaActive exampleParams unavailable (Some exampleValidator) exampleConfig"
    by (simp add: exampleParams_def)
  have g: "al_generation (?L ! 0) = Inr exampleImage" by code_simp
  show ?thesis using on g run by blast
qed

text \<open>
  The claim as it is written, without the validator's availability, fails: with a figure
  style and the per-call opt-in, no validator yet, and the creation of its text client
  failing, the handler generates once and evaluates nothing.
\<close>

theorem qa_requires_validator_counterexample:
  "p_figureStyle exampleParams \<noteq> None
   \<and> (enableScientificQa exampleConfig \<or> p_validateQa exampleParams = Some True)
   \<and> \<not> qaActive exampleParams unavailable None exampleConfig
   \<and> length (hr_attempts (handleGenerateImage exampleEnv unavailable None exampleConfig
                exampleParams ''PROMPT'')) = 1
   \<and> al_generation (hr_attempts (handleGenerateImage exampleEnv unavailable None exampleConfig
                exampleParams ''PROMPT'') ! 0) = Inr exampleImage
   \<and> al_qa (hr_attempts (handleGenerateImage exampleEnv unavailable None exampleConfig
                exampleParams ''PROMPT'') ! 0) = None"
proof -
  have a: "p_figureStyle exampleParams \<noteq> None
   \<and> (enableScientificQa exampleConfig \<or> p_validateQa exampleParams = Some True)
   \<and> \<not> qaActive exampleParams unavailable None exampleConfig"
    by (simp add: qaActive_def qaEnabled_def ensureQaValidator_def exampleParams_def unavailable_def)
  have b: "length (hr_attempts (handleGenerateImage exampleEnv unavailable None exampleConfig
                exampleParams ''PROMPT'')) = 1" by code_simp
  have c: "al_generation (hr_attempts (handleGenerateImage exampleEnv unavailable None exampleConfig
                exampleParams ''PROMPT'') ! 0) = Inr exampleImage" by code_simp
  have d: "al_qa (hr_attempts (handleGenerateImage exampleEnv unavailable None exampleConfig
                exampleParams ''PROMPT'') ! 0) = None" by code_simp
  show ?thesis using a b c d by blast
qed

section \<open>The saved file name\<close>

lemma twelve_bytes:
  assumes "12 \<le> length (d :: bytes)"
  obtains x0 x1 x2 x3 x4 x5 x6 x7 x8 x9 x10 x11 rest
  where "d = x0 # x1 # x2 # x3 # x4 # x5 # x6 # x7 # x8 # x9 # x10 # x11 # rest"
proof -
  from assms have "\<exists>x0 x1 x2 x3 x4 x5 x6 x7 x8 x9 x10 x11 rest.
      d = x0 # x1 # x2 # x3 # x4 # x5 # x6 # x7 # x8 # x9 # x10 # x11 # rest"
    by (simp add: eval_nat_numeral Suc_le_length_iff) blast
  then show ?thesis using that by blast
qed

lemma extension_by_magic:
  assumes "12 \<le> length d"
  shows "prefix pngMagic d \<Longrightarrow> getExtensionFromImageData d = ''.png''"
    and "prefix jpegMagic d \<Longrightarrow> getExtensionFromImageData d = ''.jpg''"
    and "prefix gifMagic d \<Longrightarrow> getExtensionFromImageData d = ''.gif''"
    and "isWebp d \<Longrightarrow> getExtensionFromImageData d = ''.webp''"
    and "\<not> prefix pngMagic d \<Longrightarrow> \<not> prefix jpegMagic d \<Longrightarrow> \<not> prefix gifMagic d \<Longrightarrow> \<not> isWebp d
           \<Longrightarrow> getExtensionFromImageData d = ''.png''"
proof -
  obtain x0 x1 x2 x3 x4 x5 x6 x7 x8 x9 x10 x11 rest
    where d: "d = x0 # x1 # x2 # x3 # x4 # x5 # x6 # x7 # x8 # x9 # x10 # x11 # rest"
    using assms by (rule twelve_bytes)
  show "prefix pngMagic d \<Longrightarrow> getExtensionFromImageData d = ''.png''"
    by (simp add: d getExtensionFromImageData_def pngMagic_def)
  show "prefix jpegMagic d \<Longrightarrow> getExtensionFromImageData d = ''.jpg''"
    by (simp add: d getExtensionFromImageData_def jpegMagic_def)
  show "prefix gifMagic d \<Longrightarrow> getExtensionFromImageData d = ''.gif''"
    by (simp add: d getExtensionFromImageData_def gifMagic_def)
  show "isWebp d \<Longrightarrow> getExtensionFromImageData d = ''.webp''"
    by (simp add: d getExtensionFromImageData_def isWebp_def riffMagic_def webpMagic_def)
  show "\<not> prefix pngMagic d \<Longrightarrow> \<not> prefix jpegMagic d \<Longrightarrow> \<not> prefix gifMagic d \<Longrightarrow> \<not> isWebp d
           \<Longrightarrow> getExtensionFromImageData d = ''.png''"
    by (simp add: d getExtensionFromImageData_def pngMagic_def jpegMagic_def gifMagic_def
        isWebp_def riffMagic_def webpMagic_def)
qed

lemma short_no_magic:
  "length d < 12 \<Longrightarrow> getExtensionFromImageData d = ''.png''"
  by (simp add: getExtensionFromImageData_def)

lemma removeExtension_cut:
  "e \<noteq> [] \<Longrightarrow> list_all extensionChar e \<Longrightarrow> removeExtension (stem @ ''.'' @ e) = stem"
proof (induction stem)
  case Nil
  then show ?case by simp
next
  case (Cons c cs)
  have "\<not> list_all extensionChar (cs @ ''.'' @ e)"
    by (simp add: extensionChar_def)
  then show ?case using Cons by simp
qed

lemma removeExtension_shape:
  "removeExtension f = f
   \<or> (\<exists>e. f = removeExtension f @ ''.'' @ e \<and> e \<noteq> [] \<and> list_all extensionChar e)"
proof (induction f)
  case Nil
  then show ?case by simp
next
  case (Cons c cs)
  show ?case
  proof (cases "c = CHR ''.'' \<and> cs \<noteq> [] \<and> list_all extensionChar cs")
    case True
    then show ?thesis by simp
  next
    case False
    then have r: "removeExtension (c # cs) = c # removeExtension cs" by auto
    from Cons.IH show ?thesis
    proof
      assume "removeExtension cs = cs"
      then show ?thesis using r by simp
    next
      assume "\<exists>e. cs = removeExtension cs @ ''.'' @ e \<and> e \<noteq> [] \<and> list_all extensionChar e"
      then obtain e where "cs = removeExtension cs @ ''.'' @ e" "e \<noteq> []" "list_all extensionChar e"
        by blast
      then have "c # cs = removeExtension (c # cs) @ ''.'' @ e" using r by simp
      then show ?thesis using \<open>e \<noteq> []\<close> \<open>list_all extensionChar e\<close> by blast
    qed
  qed
qed

lemma extension_and_stem:
  "(truthy fileName \<longrightarrow>
      (\<exists>stem. outputFileName env fileName d = stem @ getExtensionFromImageData d
         \<and> (stem = the fileName
            \<or> (\<exists>e. the fileName = stem @ ''.'' @ e \<and> e \<noteq> [] \<and> list_all extensionChar e))))
   \<and> (\<forall>stem e. e \<noteq> [] \<and> list_all extensionChar e \<longrightarrow>
         outputFileName env (Some (stem @ ''.'' @ e)) d = stem @ getExtensionFromImageData d)
   \<and> (length d < 12 \<longrightarrow> getExtensionFromImageData d = ''.png'')
   \<and> (12 \<le> length d \<and> prefix pngMagic d \<longrightarrow> getExtensionFromImageData d = ''.png'')
   \<and> (12 \<le> length d \<and> prefix jpegMagic d \<longrightarrow> getExtensionFromImageData d = ''.jpg'')
   \<and> (12 \<le> length d \<and> prefix gifMagic d \<longrightarrow> getExtensionFromImageData d = ''.gif'')
   \<and> (12 \<le> length d \<and> isWebp d \<longrightarrow> getExtensionFromImageData d = ''.webp'')
   \<and> (\<not> prefix pngMagic d \<and> \<not> prefix jpegMagic d \<and> \<not> prefix gifMagic d \<and> \<not> isWebp d
         \<longrightarrow> getExtensionFromImageData d = ''.png'')"
proof (intro conjI impI allI)
  assume t: "truthy fileName"
  then obtain f where f: "fileName = Some f" "f \<noteq> []"
    by (auto simp: truthy_def split: option.splits)
  have "outputFileName env fileName d = removeExtension f @ getExtensionFromImageData d"
    using t f by (simp add: outputFileName_def)
  then show "\<exists>stem. outputFileName env fileName d = stem @ getExtensionFromImageData d
         \<and> (stem = the fileName
            \<or> (\<exists>e. the fileName = stem @ ''.'' @ e \<and> e \<noteq> [] \<and> list_all extensionChar e))"
    using removeExtension_shape [of f] f by auto
next
  fix stem e assume "e \<noteq> [] \<and> list_all extensionChar e"
  then show "outputFileName env (Some (stem @ ''.'' @ e)) d = stem @ getExtensionFromImageData d"
    using removeExtension_cut [of e stem] by (simp add: outputFileName_def truthy_def)
next
  assume "\<not> prefix pngMagic d \<and> \<not> prefix jpegMagic d \<and> \<not> prefix gifMagic d \<and> \<not> isWebp d"
  then show "getExtensionFromImageData d = ''.png''"
    using extension_by_magic(5) [of d] short_no_magic [of d] by (cases "length d < 12") auto
qed (simp_all add: short_no_magic extension_by_magic)

lemma save_call_name:
  "let H = handleGenerateImage env created v0 config params sp
   in (\<forall>dat p. hr_saveCall H = Some (dat, p) \<longrightarrow>
         (\<exists>g. al_generation (last (hr_attempts H)) = Inr g \<and> dat = imageData g
            \<and> sanitizeFilePath env (pathJoin env (imageOutputDir config)
                 (outputFileName env (p_fileName params) (imageData g))) = Inr p))
      \<and> (\<forall>g p. al_generation (last (hr_attempts H)) = Inr g
            \<and> sanitizeFilePath env (pathJoin env (imageOutputDir config)
                 (outputFileName env (p_fileName params) (imageData g))) = Inr p
            \<longrightarrow> hr_saveCall H = Some (imageData g, p))
      \<and> (\<forall>resp. hr_response H = Inr resp \<longrightarrow>
            (\<exists>p. hr_saveCall H = Some (imageData (sr_result resp), p)
               \<and> saveImage env (imageData (sr_result resp)) p = Inr (sr_path resp)))"
proof -
  let ?H = "handleGenerateImage env created v0 config params sp"
  have a: "\<exists>g. al_generation (last (hr_attempts ?H)) = Inr g \<and> dat = imageData g
            \<and> sanitizeFilePath env (pathJoin env (imageOutputDir config)
                 (outputFileName env (p_fileName params) (imageData g))) = Inr p"
    if "hr_saveCall ?H = Some (dat, p)" for dat p
    using handler_saveCall [OF that] handler_last_of_loop unfolding handler_attempts by blast
  have b: "hr_saveCall ?H = Some (imageData g, p)"
    if "al_generation (last (hr_attempts ?H)) = Inr g"
      "sanitizeFilePath env (pathJoin env (imageOutputDir config)
                 (outputFileName env (p_fileName params) (imageData g))) = Inr p" for g p
    using handler_loop_of_last [OF that(1) [unfolded handler_attempts]] handler_saves that(2)
    by blast
  have c: "\<exists>p. hr_saveCall ?H = Some (imageData (sr_result resp), p)
               \<and> saveImage env (imageData (sr_result resp)) p = Inr (sr_path resp)"
    if "hr_response ?H = Inr resp" for resp
    using that by (rule handler_success_saved)
  show ?thesis unfolding Let_def using a b c by blast
qed

lemma save_path_stem:
  assumes "hr_saveCall (handleGenerateImage env created v0 config params sp) = Some (dat, p)"
    and "truthy (p_fileName params)"
  shows "\<exists>stem. sanitizeFilePath env (pathJoin env (imageOutputDir config)
                    (stem @ getExtensionFromImageData dat)) = Inr p
           \<and> (stem = the (p_fileName params)
              \<or> (\<exists>e. the (p_fileName params) = stem @ ''.'' @ e \<and> e \<noteq> []
                     \<and> list_all extensionChar e))"
proof -
  from handler_saveCall [OF assms(1)]
  obtain g r where "snd (handlerLoop env created v0 config params sp) = Inr (Some g, r)"
    and g: "dat = imageData g"
    "sanitizeFilePath env (pathJoin env (imageOutputDir config)
        (outputFileName env (p_fileName params) (imageData g))) = Inr p"
    by (elim exE conjE)
  obtain stem where "outputFileName env (p_fileName params) dat = stem @ getExtensionFromImageData dat"
    "stem = the (p_fileName params)
       \<or> (\<exists>e. the (p_fileName params) = stem @ ''.'' @ e \<and> e \<noteq> [] \<and> list_all extensionChar e)"
    using extension_and_stem [of "p_fileName params" env dat] assms(2) by blast
  then show ?thesis using g by auto
qed

text \<open>
  C10. With a caller-supplied file name the name handed on for saving is a stem followed
  by the extension read from the image bytes; the stem is the supplied name without its
  final extension, or the whole name when it has none, so the supplied extension is
  replaced. The extension depends on the bytes alone: \<open>.png\<close> for fewer than 12 bytes; from
  12 bytes on \<open>.png\<close>, \<open>.jpg\<close>, \<open>.gif\<close> and \<open>.webp\<close> for the PNG, JPEG, GIF and RIFF/WEBP
  signatures; and \<open>.png\<close> when no signature matches. In the handler, \<open>saveImage\<close> is called
  with the bytes of the last generated image and the sanitized path of exactly that name
  in the output directory; it is called whenever that image exists and the path passes
  the sanitizer, and a successful response reports the path \<open>saveImage\<close> returned.
\<close>

theorem saved_file_extension:
  "((truthy fileName \<longrightarrow>
      (\<exists>stem. outputFileName env fileName d = stem @ getExtensionFromImageData d
         \<and> (stem = the fileName
            \<or> (\<exists>e. the fileName = stem @ ''.'' @ e \<and> e \<noteq> [] \<and> list_all extensionChar e))))
   \<and> (\<forall>stem e. e \<noteq> [] \<and> list_all extensionChar e \<longrightarrow>
         outputFileName env (Some (stem @ ''.'' @ e)) d = stem @ getExtensionFromImageData d)
   \<and> (length d < 12 \<longrightarrow> getExtensionFromImageData d = ''.png'')
   \<and> (12 \<le> length d \<and> prefix pngMagic d \<longrightarrow> getExtensionFromImageData d = ''.png'')
   \<and> (12 \<le> length d \<and> prefix jpegMagic d \<longrightarrow> getExtensionFromImageData d = ''.jpg'')
   \<and> (12 \<le> length d \<and> prefix gifMagic d \<longrightarrow> getExtensionFromImageData d = ''.gif'')
   \<and> (12 \<le> length d \<and> isWebp d \<longrightarrow> getExtensionFromImageData d = ''.webp'')
   \<and> (\<not> prefix pngMagic d \<and> \<not> prefix jpegMagic d \<and> \<not> prefix gifMagic d \<and> \<not> isWebp d
         \<longrightarrow> getExtensionFromImageData d = ''.png''))
   \<and> (let H = handleGenerateImage env created v0 config params sp
      in (\<forall>dat p. hr_saveCall H = Some (dat, p) \<longrightarrow>
            (\<exists>g. al_generation (last (hr_attempts H)) = Inr g \<and> dat = imageData g
               \<and> sanitizeFilePath env (pathJoin env (imageOutputDir config)
                    (outputFileName env (p_fileName params) (imageData g))) = Inr p))
         \<and> (\<forall>dat p. hr_saveCall H = Some (dat, p) \<and> truthy (p_fileName params) \<longrightarrow>
               (\<exists>stem. sanitizeFilePath env (pathJoin env (imageOutputDir config)
                          (stem @ getExtensionFromImageData dat)) = Inr p
                  \<and> (stem = the (p_fileName params)
                     \<or> (\<exists>e. the (p_fileName params) = stem @ ''.'' @ e \<and> e \<noteq> []
                            \<and> list_all extensionChar e))))
         \<and> (\<forall>g p. al_generation (last (hr_attempts H)) = Inr g
               \<and> sanitizeFilePath env (pathJoin env (imageOutputDir config)
                    (outputFileName env (p_fileName params) (imageData g))) = Inr p
               \<longrightarrow> hr_saveCall H = Some (imageData g, p))
         \<and> (\<forall>resp. hr_response H = Inr resp \<longrightarrow>
               (\<exists>p. hr_saveCall H = Some (imageData (sr_result resp), p)
                  \<and> saveImage env (imageData (sr_result resp)) p = Inr (sr_path resp))))"
proof (rule conjI)
  show "(truthy fileName \<longrightarrow>
      (\<exists>stem. outputFileName env fileName d = stem @ getExtensionFromImageData d
         \<and> (stem = the fileName
            \<or> (\<exists>e. the fileName = stem @ ''.'' @ e \<and> e \<noteq> [] \<and> list_all extensionChar e))))
   \<and> (\<forall>stem e. e \<noteq> [] \<and> list_all extensionChar e \<longrightarrow>
         outputFileName env (Some (stem @ ''.'' @ e)) d = stem @ getExtensionFromImageData d)
   \<and> (length d < 12 \<longrightarrow> getExtensionFromImageData d = ''.png'')
   \<and> (12 \<le> length d \<and> prefix pngMagic d \<longrightarrow> getExtensionFromImageData d = ''.png'')
   \<and> (12 \<le> length d \<and> prefix jpegMagic d \<longrightarrow> getExtensionFromImageData d = ''.jpg'')
   \<and> (12 \<le> length d \<and> prefix gifMagic d \<longrightarrow> getExtensionFromImageData d = ''.gif'')
   \<and> (12 \<le> length d \<and> isWebp d \<longrightarrow> getExtensionFromImageData d = ''.webp'')
   \<and> (\<not> prefix pngMagic d \<and> \<not> prefix jpegMagic d \<and> \<not> prefix gifMagic d \<and> \<not> isWebp d
         \<longrightarrow> getExtensionFromImageData d = ''.png'')"
    by (rule extension_and_stem)
next
  let ?H = "handleGenerateImage env created v0 config params sp"
  have s1: "\<forall>dat p. hr_saveCall ?H = Some (dat, p) \<longrightarrow>
            (\<exists>g. al_generation (last (hr_attempts ?H)) = Inr g \<and> dat = imageData g
               \<and> sanitizeFilePath env (pathJoin env (imageOutputDir config)
                    (outputFileName env (p_fileName params) (imageData g))) = Inr p)"
    and s3: "\<forall>g p. al_generation (last (hr_attempts ?H)) = Inr g
               \<and> sanitizeFilePath env (pathJoin env (imageOutputDir config)
                    (outputFileName env (p_fileName params) (imageData g))) = Inr p
               \<longrightarrow> hr_saveCall ?H = Some (imageData g, p)"
    and s4: "\<forall>resp. hr_response ?H = Inr resp \<longrightarrow>
               (\<exists>p. hr_saveCall ?H = Some (imageData (sr_result resp), p)
                  \<and> saveImage env (imageData (sr_result resp)) p = Inr (sr_path resp))"
    using save_call_name [of env created v0 config params sp] unfolding Let_def by blast+
  have s2: "\<forall>dat p. hr_saveCall ?H = Some (dat, p) \<and> truthy (p_fileName params) \<longrightarrow>
               (\<exists>stem. sanitizeFilePath env (pathJoin env (imageOutputDir config)
                          (stem @ getExtensionFromImageData dat)) = Inr p
                  \<and> (stem = the (p_fileName params)
                     \<or> (\<exists>e. the (p_fileName params) = stem @ ''.'' @ e \<and> e \<noteq> []
                            \<and> list_all extensionChar e)))"
    using save_path_stem by blast
  show "let H = ?H
      in (\<forall>dat p. hr_saveCall H = Some (dat, p) \<longrightarrow>
            (\<exists>g. al_generation (last (hr_attempts H)) = Inr g \<and> dat = imageData g
               \<and> sanitizeFilePath env (pathJoin env (imageOutputDir config)
                    (outputFileName env (p_fileName params) (imageData g))) = Inr p))
         \<and> (\<forall>dat p. hr_saveCall H = Some (dat, p) \<and> truthy (p_fileName params) \<longrightarrow>
               (\<exists>stem. sanitizeFilePath env (pathJoin env (imageOutputDir config)
                          (stem @ getExtensionFromImageData dat)) = Inr p
                  \<and> (stem = the (p_fileName params)
                     \<or> (\<exists>e. the (p_fileName params) = stem @ ''.'' @ e \<and> e \<noteq> []
                            \<and> list_all extensionChar e))))
         \<and> (\<forall>g p. al_generation (last (hr_attempts H)) = Inr g
               \<and> sanitizeFilePath env (pathJoin env (imageOutputDir config)
                    (outputFileName env (p_fileName params) (imageData g))) = Inr p
               \<longrightarrow> hr_saveCall H = Some (imageData g, p))
         \<and> (\<forall>resp. hr_response H = Inr resp \<longrightarrow>
               (\<exists>p. hr_saveCall H = Some (imageData (sr_result resp), p)
                  \<and> saveImage env (imageData (sr_result resp)) p = Inr (sr_path resp)))"
    unfolding Let_def by (intro conjI s1 s2 s3 s4)
qed

theorem saved_file_extension_witness:
  "truthy (p_fileName exampleParams) \<and> ''png'' \<noteq> [] \<and> list_all extensionChar ''png''
   \<and> 12 \<le> length jpegBytes \<and> prefix jpegMagic jpegBytes
   \<and> outputFileName exampleEnv (Some (''glaciers'' @ ''.'' @ ''png'')) jpegBytes = ''glaciers.jpg''
   \<and> al_generation (last (hr_attempts (handleGenerateImage exampleEnv unavailable
         (Some exampleValidator) exampleConfig exampleParams ''PROMPT''))) = Inr exampleImage
   \<and> hr_saveCall (handleGenerateImage exampleEnv unavailable (Some exampleValidator)
         exampleConfig exampleParams ''PROMPT'') = Some (jpegBytes, ''./output/glaciers.jpg'')"
proof -
  let ?H = "handleGenerateImage exampleEnv unavailable (Some exampleValidator)
         exampleConfig exampleParams ''PROMPT''"
  note inst = saved_file_extension [of "Some ''glaciers.png''" exampleEnv jpegBytes unavailable
      "Some exampleValidator" exampleConfig exampleParams "''PROMPT''"]
  have a: "truthy (p_fileName exampleParams)" by (simp add: truthy_def exampleParams_def)
  have b: "''png'' \<noteq> [] \<and> list_all extensionChar ''png''" by (simp add: extensionChar_def)
  have c: "12 \<le> length jpegBytes \<and> prefix jpegMagic jpegBytes"
    by (simp add: jpegBytes_def jpegMagic_def)
  have n: "outputFileName exampleEnv (Some (''glaciers'' @ ''.'' @ ''png'')) jpegBytes
          = ''glaciers'' @ getExtensionFromImageData jpegBytes"
    and e: "getExtensionFromImageData jpegBytes = ''.jpg''"
    using inst b c by blast+
  then have name: "outputFileName exampleEnv (Some ''glaciers.png'') jpegBytes = ''glaciers.jpg''"
    by simp
  have l: "al_generation (last (hr_attempts ?H)) = Inr exampleImage" by code_simp
  have p: "sanitizeFilePath exampleEnv (pathJoin exampleEnv (imageOutputDir exampleConfig)
             (outputFileName exampleEnv (p_fileName exampleParams) (imageData exampleImage)))
           = Inr ''./output/glaciers.jpg''"
    using name by (simp add: exampleEnv_def exampleConfig_def exampleParams_def exampleImage_def)
  have "\<forall>g p. al_generation (last (hr_attempts ?H)) = Inr g
               \<and> sanitizeFilePath exampleEnv (pathJoin exampleEnv (imageOutputDir exampleConfig)
                    (outputFileName exampleEnv (p_fileName exampleParams) (imageData g))) = Inr p
               \<longrightarrow> hr_saveCall ?H = Some (imageData g, p)"
    using inst unfolding Let_def by blast
  then have "hr_saveCall ?H = Some (imageData exampleImage, ''./output/glaciers.jpg'')"
    using l p by blast
  then have s: "hr_saveCall ?H = Some (jpegBytes, ''./output/glaciers.jpg'')"
    by (simp add: exampleImage_def)
  show ?thesis using a b c n e l s by simp
qed

end
